theory Spec2Isabelle
  imports Main "HOL-Library.Word" "HOL-Library.Signed_Division"
begin

unbundle bit_operations_syntax

section \<open>The pageout control plane of \<^verbatim>\<open>usr/src/uts/common/os/vm_pageout.c\<close>\<close>

text \<open>
  The kernel is LP64: \<^verbatim>\<open>pgcnt_t\<close> and \<^verbatim>\<open>ulong_t\<close> are unsigned 64-bit,
  \<^verbatim>\<open>uint_t\<close> is unsigned 32-bit, \<^verbatim>\<open>spgcnt_t\<close> and \<^verbatim>\<open>hrtime_t\<close> are
  signed 64-bit. All of them are words here; arithmetic wraps as in C, and a
  signed reading is \<open>sint\<close>.
\<close>

type_synonym pgcnt_t = "64 word"
type_synonym uint_t = "32 word"
type_synonym hrtime_t = "64 word"

subsection \<open>What the file takes from the rest of the kernel\<close>

text \<open>
  The variables and machine constants below are declared in other files of the
  kernel. They are read-only inputs of every function of this file, so each
  function takes them as a record.
\<close>

record kernel =
  PAGESHIFT :: nat
  DISKRPM :: pgcnt_t
  total_pages :: pgcnt_t
  freemem :: pgcnt_t
  kmem_reapahead :: pgcnt_t
  zone_num_over_cap :: uint_t
  kcage_on :: bool
  kcage_freemem :: pgcnt_t
  kcage_desfree :: pgcnt_t
  kcage_needfree :: pgcnt_t
  kmem_avail :: "64 word"
  panicstr :: "string option"

text \<open>
  Modelled from the spec: the macro \<^verbatim>\<open>btop\<close> (bytes to pages) is defined in the
  machine headers, outside the sources at hand. The spec uses it as the number of
  whole pages in a byte count, which is a right shift by \<^verbatim>\<open>PAGESHIFT\<close>.
\<close>

definition btop :: "kernel \<Rightarrow> 64 word \<Rightarrow> pgcnt_t" where
  "btop k x = drop_bit (PAGESHIFT k) x"

definition MEGABYTES :: "64 word" where
  "MEGABYTES = 1024 * 1024"

definition LOTSFREE_MIN_DEFAULT :: "64 word" where
  "LOTSFREE_MIN_DEFAULT = 16 * MEGABYTES"

definition LOTSFREE_MAX_DEFAULT :: "64 word" where
  "LOTSFREE_MAX_DEFAULT = 2048 * MEGABYTES"

text \<open>
  Modelled from the spec: \<^verbatim>\<open>MAXHANDSPREADPAGES\<close> is defined in a header outside
  the sources at hand; the spec and the comment in \<^verbatim>\<open>setupclock\<close> give it as the
  number of pages covering 64 MiB.
\<close>

definition MAXHANDSPREADPAGES :: "kernel \<Rightarrow> pgcnt_t" where
  "MAXHANDSPREADPAGES k = btop k (64 * MEGABYTES)"

text \<open>
  Modelled from the spec: the macro \<^verbatim>\<open>nz\<close> is defined in a header outside the
  sources at hand; the spec gives \<^verbatim>\<open>nz(lotsfree)\<close> as \<open>max(lotsfree, 1)\<close>.
\<close>

definition nz :: "pgcnt_t \<Rightarrow> pgcnt_t" where
  "nz x = (if x \<noteq> 0 then x else 1)"

definition MAX_PSCAN_THREADS :: nat where
  "MAX_PSCAN_THREADS = 16"

definition SCHEDPAGING_HZ :: "64 word" where
  "SCHEDPAGING_HZ = 4"

definition loopfraction :: pgcnt_t where
  "loopfraction = 2"

subsection \<open>The variables of the file\<close>

record clockinit_t =
  ci_init :: bool
  ci_lotsfree_min :: pgcnt_t
  ci_lotsfree_max :: pgcnt_t
  ci_lotsfree :: pgcnt_t
  ci_desfree :: pgcnt_t
  ci_minfree :: pgcnt_t
  ci_throttlefree :: pgcnt_t
  ci_pageout_reserve :: pgcnt_t
  ci_maxpgio :: pgcnt_t
  ci_maxfastscan :: pgcnt_t
  ci_fastscan :: pgcnt_t
  ci_slowscan :: pgcnt_t
  ci_handspreadpages :: pgcnt_t

record pageout_vars =
  slowscan :: pgcnt_t
  fastscan :: pgcnt_t
  handspreadpages :: pgcnt_t
  looppages :: pgcnt_t
  min_percent_cpu :: "32 word"
  max_percent_cpu :: "32 word"
  maxfastscan :: pgcnt_t
  maxslowscan :: pgcnt_t
  lotsfree_fraction :: uint_t
  lotsfree_min :: pgcnt_t
  lotsfree_max :: pgcnt_t
  maxpgio :: pgcnt_t
  minfree :: pgcnt_t
  desfree :: pgcnt_t
  lotsfree :: pgcnt_t
  needfree :: pgcnt_t
  throttlefree :: pgcnt_t
  pageout_reserve :: pgcnt_t
  deficit :: pgcnt_t
  nscan :: pgcnt_t
  desscan :: pgcnt_t
  pageout_threshold_style :: uint_t
  low_mem_scan :: "64 word"
  zone_cap_scan :: "64 word"
  min_pageout_nsec :: hrtime_t
  max_pageout_nsec :: hrtime_t
  pageout_nsec :: hrtime_t
  zone_pageout_nsec :: hrtime_t
  reset_hands :: "bool list"
  des_page_scanners :: uint_t
  n_page_scanners :: uint_t
  pscan_region_sz :: pgcnt_t
  pageout_sample_lim :: uint_t
  pageout_sample_cnt :: uint_t
  pageout_new_spread :: pgcnt_t
  clockinit :: clockinit_t
  zones_over :: bool
  po_share :: "64 word"

text \<open>The variables as the C initialisers leave them, before anything has run.\<close>

definition boot_vars :: pageout_vars where
  "boot_vars = \<lparr>
     slowscan = 0, fastscan = 0, handspreadpages = 0, looppages = 0,
     min_percent_cpu = 4, max_percent_cpu = 80,
     maxfastscan = 0, maxslowscan = 100,
     lotsfree_fraction = 64, lotsfree_min = 0, lotsfree_max = 0,
     maxpgio = 0, minfree = 0, desfree = 0, lotsfree = 0, needfree = 0,
     throttlefree = 0, pageout_reserve = 0, deficit = 0, nscan = 0, desscan = 0,
     pageout_threshold_style = 0, low_mem_scan = 0, zone_cap_scan = 0,
     min_pageout_nsec = 0, max_pageout_nsec = 0, pageout_nsec = 0,
     zone_pageout_nsec = 0,
     reset_hands = replicate MAX_PSCAN_THREADS False,
     des_page_scanners = 0, n_page_scanners = 0, pscan_region_sz = 0,
     pageout_sample_lim = 4, pageout_sample_cnt = 0, pageout_new_spread = 0,
     clockinit = \<lparr>ci_init = False, ci_lotsfree_min = 0, ci_lotsfree_max = 0,
       ci_lotsfree = 0, ci_desfree = 0, ci_minfree = 0, ci_throttlefree = 0,
       ci_pageout_reserve = 0, ci_maxpgio = 0, ci_maxfastscan = 0,
       ci_fastscan = 0, ci_slowscan = 0, ci_handspreadpages = 0\<rparr>,
     zones_over = False, po_share = 8\<rparr>"

subsection \<open>\<^verbatim>\<open>clamp\<close> and \<^verbatim>\<open>tune\<close>\<close>

definition clamp :: "pgcnt_t \<Rightarrow> pgcnt_t \<Rightarrow> pgcnt_t \<Rightarrow> pgcnt_t" where
  "clamp val minimum maximum =
     (if val < minimum then minimum
      else if val > maximum then maximum
      else val)"

definition tune :: "pgcnt_t \<Rightarrow> pgcnt_t \<Rightarrow> pgcnt_t \<Rightarrow> pgcnt_t" where
  "tune initval initval_ceiling defval =
     (if initval = 0 \<or> initval \<ge> initval_ceiling then defval else initval)"

subsection \<open>\<^verbatim>\<open>setupclock\<close>\<close>

text \<open>
  Lines 441 to 461: on the first call the operator's values are copied into
  \<^verbatim>\<open>clockinit\<close>; the local \<^verbatim>\<open>recalc\<close> is false exactly on that call.
\<close>

definition clockinit_snapshot :: "pageout_vars \<Rightarrow> pageout_vars" where
  "clockinit_snapshot s =
     (if \<not> ci_init (clockinit s) then
        s\<lparr>clockinit := \<lparr>
            ci_init = True,
            ci_lotsfree_min = lotsfree_min s,
            ci_lotsfree_max = lotsfree_max s,
            ci_lotsfree = lotsfree s,
            ci_desfree = desfree s,
            ci_minfree = minfree s,
            ci_throttlefree = throttlefree s,
            ci_pageout_reserve = pageout_reserve s,
            ci_maxpgio = maxpgio s,
            ci_maxfastscan = maxfastscan s,
            ci_fastscan = fastscan s,
            ci_slowscan = slowscan s,
            ci_handspreadpages = handspreadpages s\<rparr>\<rparr>
      else s)"

text \<open>
  Lines 467 to 498: the paging thresholds. The assignments run in the order of
  the C; each primed name is the variable after its assignment, and later
  assignments read it.
\<close>

definition setupclock_thresholds :: "kernel \<Rightarrow> pageout_vars \<Rightarrow> pageout_vars" where
  "setupclock_thresholds k s =
     (let ci = clockinit s;
          half = (pageout_threshold_style s = 1);
          lotsfree_max' =
            tune (ci_lotsfree_max ci) (looppages s) (btop k LOTSFREE_MAX_DEFAULT);
          lotsfree_min' =
            tune (ci_lotsfree_min ci) lotsfree_max' (btop k LOTSFREE_MIN_DEFAULT);
          lotsfree' =
            tune (ci_lotsfree ci) (looppages s)
              (clamp (looppages s div ucast (lotsfree_fraction s))
                 lotsfree_min' lotsfree_max');
          desfree' = tune (ci_desfree ci) lotsfree' (lotsfree' div 2);
          minfree' =
            tune (ci_minfree ci) desfree'
              (if half then desfree' div 2 else (3 * desfree') div 4);
          throttlefree' = tune (ci_throttlefree ci) desfree' minfree';
          pageout_reserve' =
            tune (ci_pageout_reserve ci) throttlefree'
              (if half then throttlefree' div 2 else (3 * throttlefree') div 4);
          maxpgio' =
            (if ci_maxpgio ci = 0 then (DISKRPM k * 2) div 3 else ci_maxpgio ci)
      in s\<lparr>lotsfree_max := lotsfree_max',
            lotsfree_min := lotsfree_min',
            lotsfree := lotsfree',
            desfree := desfree',
            minfree := minfree',
            throttlefree := throttlefree',
            pageout_reserve := pageout_reserve',
            maxpgio := maxpgio'\<rparr>)"

text \<open>
  Lines 594 to 658: the scan rates and the distance between the hands. A name
  with two primes is a variable after its first assignment, where a second one
  (a cap) follows.
\<close>

definition setupclock_scanrates :: "kernel \<Rightarrow> pageout_vars \<Rightarrow> pageout_vars" where
  "setupclock_scanrates k s =
     (let ci = clockinit s;
          maxfastscan' =
            (if ci_maxfastscan ci = 0 then
               (if pageout_new_spread s \<noteq> 0 then pageout_new_spread s
                else MAXHANDSPREADPAGES k)
             else ci_maxfastscan ci);
          fastscan'' =
            (if ci_fastscan ci = 0
             then min (looppages s div loopfraction) maxfastscan'
             else ci_fastscan ci);
          fastscan' =
            (if fastscan'' > looppages s div loopfraction
             then looppages s div loopfraction
             else fastscan'');
          slowscan'' =
            (if ci_slowscan ci = 0
             then min (fastscan' div 10) (maxslowscan s)
             else ci_slowscan ci);
          slowscan' =
            (if slowscan'' > fastscan' div 2 then fastscan' div 2 else slowscan'');
          handspreadpages'' =
            (if ci_handspreadpages ci = 0 then fastscan' else ci_handspreadpages ci);
          handspreadpages' =
            (if handspreadpages'' \<ge> looppages s then looppages s - 1
             else handspreadpages'')
      in s\<lparr>maxfastscan := maxfastscan',
            fastscan := fastscan',
            slowscan := slowscan',
            handspreadpages := handspreadpages'\<rparr>)"

text \<open>
  Lines 703 to 706: \<^verbatim>\<open>for (i = 1; tmp < total_pages; i++) tmp += sz;\<close> with
  \<^verbatim>\<open>i\<close> a \<^verbatim>\<open>uint_t\<close> and \<^verbatim>\<open>tmp\<close> a \<^verbatim>\<open>pgcnt_t\<close>. Nothing in the C bounds
  the number of rounds (with \<^verbatim>\<open>sz = 0\<close> it never ends), so the loop is a partial
  function and \<open>None\<close> stands for a loop that does not end.
\<close>

partial_function (option) scanner_count_loop ::
  "uint_t \<Rightarrow> pgcnt_t \<Rightarrow> pgcnt_t \<Rightarrow> pgcnt_t \<Rightarrow> uint_t option" where
  "scanner_count_loop i tmp sz tp =
     (if tmp < tp then scanner_count_loop (i + 1) (tmp + sz) sz tp else Some i)"

declare scanner_count_loop.simps [code]

text \<open>
  Lines 660 to 711: the number of scanner threads. The first call (\<^verbatim>\<open>recalc\<close>
  false) returns early.
\<close>

definition scanner_region_sz :: "kernel \<Rightarrow> pageout_vars \<Rightarrow> pgcnt_t" where
  "scanner_region_sz k s =
     (let sz0 = btop k (64 * 0x40000000);
          sz1 = (if sz0 < handspreadpages s then push_bit 1 (handspreadpages s) else sz0)
      in if sz1 > total_pages k then total_pages k else sz1)"

definition setupclock_scanners :: "kernel \<Rightarrow> bool \<Rightarrow> pageout_vars \<Rightarrow> pageout_vars option" where
  "setupclock_scanners k recalc s =
     (if \<not> recalc then
        Some (s\<lparr>pscan_region_sz := total_pages k,
                n_page_scanners := 1,
                des_page_scanners := 1,
                reset_hands := (reset_hands s)[0 := True]\<rparr>)
      else
        (let sz = scanner_region_sz k s;
             s1 = s\<lparr>pscan_region_sz := sz\<rparr>
         in case scanner_count_loop 1 sz sz (total_pages k) of
              None \<Rightarrow> None
            | Some i \<Rightarrow>
                Some (s1\<lparr>des_page_scanners :=
                        (if i > of_nat MAX_PSCAN_THREADS then of_nat MAX_PSCAN_THREADS else i)\<rparr>)))"

text \<open>
  Lines 430 to 658 in one piece: the snapshot, the thresholds and the scan
  rates.
\<close>

definition setupclock_derived :: "kernel \<Rightarrow> pageout_vars \<Rightarrow> pageout_vars" where
  "setupclock_derived k s =
     setupclock_scanrates k
       (setupclock_thresholds k
          (clockinit_snapshot (s\<lparr>looppages := total_pages k\<rparr>)))"

text \<open>
  The whole function. The division by \<^verbatim>\<open>lotsfree_fraction\<close> on line 473 is
  evaluated on every call; with a zero divisor the kernel traps, which is
  \<open>None\<close> here, as is a counting loop that does not end. The local
  \<^verbatim>\<open>recalc\<close> is true exactly when \<^verbatim>\<open>clockinit.ci_init\<close> was already set on
  entry.
\<close>

definition setupclock :: "kernel \<Rightarrow> pageout_vars \<Rightarrow> pageout_vars option" where
  "setupclock k s =
     (let recalc = ci_init (clockinit s)
      in if lotsfree_fraction s = 0 then None
         else setupclock_scanners k recalc (setupclock_derived k s))"

subsection \<open>The duty cycle bounds set by \<^verbatim>\<open>pageout_scanner\<close>\<close>

text \<open>
  Lines 1117 to 1120. Modelled from the spec: \<^verbatim>\<open>NANOSEC\<close> is defined in
  a header outside the sources at hand; it is the number of nanoseconds in a
  second (the spec writes \<open>1e9\<close>), an \<^verbatim>\<open>hrtime_t\<close> constant. The percentages are \<^verbatim>\<open>int\<close>s and are sign
  extended. The divisions are C's signed divisions, which truncate towards
  zero, and \<^verbatim>\<open>MAX\<close> compares signed values.
\<close>

definition NANOSEC :: hrtime_t where
  "NANOSEC = 1000000000"

definition hr_sdiv :: "hrtime_t \<Rightarrow> hrtime_t \<Rightarrow> hrtime_t" where
  "hr_sdiv a b = word_of_int (sint a sdiv sint b)"

definition hr_MAX :: "hrtime_t \<Rightarrow> hrtime_t \<Rightarrow> hrtime_t" where
  "hr_MAX a b = (if sint a < sint b then b else a)"

definition pageout_scanner_init :: "pageout_vars \<Rightarrow> pageout_vars" where
  "pageout_scanner_init s =
     (let min_pageout_nsec' =
            hr_MAX 1 (hr_sdiv (hr_sdiv (NANOSEC * scast (min_percent_cpu s)) 100)
                        SCHEDPAGING_HZ);
          max_pageout_nsec' =
            hr_MAX min_pageout_nsec'
              (hr_sdiv (hr_sdiv (NANOSEC * scast (max_percent_cpu s)) 100)
                 SCHEDPAGING_HZ)
      in s\<lparr>min_pageout_nsec := min_pageout_nsec',
            max_pageout_nsec := max_pageout_nsec'\<rparr>)"

subsection \<open>\<^verbatim>\<open>schedpaging\<close>\<close>

text \<open>
  Calls into the rest of the kernel that return nothing the file uses are
  recorded, in the order they are made.
\<close>

datatype hook =
    KMEM_REAP
  | SEG_PREAP
  | KCAGE_CAGEOUT_WAKEUP
  | WAKE_PAGEOUT_SCANNER
  | CV_SIGNAL_PAGEOUT
  | LWP_KERNEL_CREATE nat
  | CV_BROADCAST_MEMAVAIL
  | TIMEOUT_SCHEDPAGING

definition PAGE_SCAN_STARTUP :: "pageout_vars \<Rightarrow> bool" where
  "PAGE_SCAN_STARTUP s \<longleftrightarrow> pageout_sample_cnt s < pageout_sample_lim s"

definition MIN_PO_SHARE :: "64 word" where
  "MIN_PO_SHARE = 8"

definition MAX_PO_SHARE :: "64 word" where
  "MAX_PO_SHARE = push_bit 24 MIN_PO_SHARE"

text \<open>Lines 781 to 788: the reapers.\<close>

definition schedpaging_reap :: "kernel \<Rightarrow> pageout_vars \<Rightarrow> hook list" where
  "schedpaging_reap k s =
     (if freemem k < lotsfree s + needfree s + kmem_reapahead k then [KMEM_REAP] else []) @
     (if freemem k < lotsfree s + needfree s then [SEG_PREAP] else []) @
     (if kcage_on k \<and> (kcage_freemem k < kcage_desfree k \<or> kcage_needfree k \<noteq> 0)
      then [KCAGE_CAGEOUT_WAKEUP] else [])"

text \<open>
  Lines 791 to 797: \<^verbatim>\<open>vavail\<close> is an \<^verbatim>\<open>spgcnt_t\<close>. The subtractions are
  unsigned and wrap; the test against zero reads the result as signed; the test
  against \<^verbatim>\<open>lotsfree\<close> is between a signed and an unsigned long, so C compares
  them as unsigned.
\<close>

definition schedpaging_vavail :: "kernel \<Rightarrow> pageout_vars \<Rightarrow> 64 word" where
  "schedpaging_vavail k s =
     (let vavail0 = freemem k - deficit s;
          vavail1 = (if pageout_new_spread s \<noteq> 0 then vavail0 - needfree s else vavail0);
          vavail2 = (if sint vavail1 < 0 then 0 else vavail1)
      in if vavail2 > lotsfree s then lotsfree s else vavail2)"

text \<open>
  Lines 790 to 843: the page budget \<^verbatim>\<open>desscan\<close> and the time budget
  \<^verbatim>\<open>pageout_nsec\<close>. Every operand of the two interpolations is, or is
  converted to, an unsigned 64-bit value, so the arithmetic is that of words.
\<close>

definition schedpaging_rate :: "kernel \<Rightarrow> pageout_vars \<Rightarrow> pageout_vars" where
  "schedpaging_rate k s =
     (let vavail = schedpaging_vavail k s;
          desscan' =
            (if needfree s > 0 \<and> pageout_new_spread s = 0 then
               fastscan s div SCHEDPAGING_HZ
             else
               (let slowstmp = slowscan s * vavail;
                    faststmp = fastscan s * (lotsfree s - vavail)
                in (slowstmp + faststmp) div nz (lotsfree s) div SCHEDPAGING_HZ));
          pageout_nsec' =
            (if pageout_new_spread s = 0 then max_pageout_nsec s
             else min_pageout_nsec s +
                  ((lotsfree s - vavail) * (max_pageout_nsec s - min_pageout_nsec s))
                    div nz (lotsfree s))
      in s\<lparr>nscan := 0, desscan := desscan', pageout_nsec := pageout_nsec'\<rparr>)"

text \<open>
  Lines 845 to 893: the number of scanner threads follows
  \<^verbatim>\<open>des_page_scanners\<close>. The division by \<^verbatim>\<open>handspreadpages\<close> traps when
  that is zero, which is \<open>None\<close>.
\<close>

definition schedpaging_resize ::
  "kernel \<Rightarrow> pageout_vars \<Rightarrow> (pageout_vars \<times> hook list) option" where
  "schedpaging_resize k s =
     (if pageout_new_spread s \<noteq> 0 \<and> des_page_scanners s \<noteq> n_page_scanners s then
        (if handspreadpages s = 0 then None
         else
           (let curr_nscan = n_page_scanners s;
                maxv = total_pages k div handspreadpages s;
                des1 = (if ucast (des_page_scanners s) > maxv
                        then ucast maxv else des_page_scanners s);
                des2 = (if des1 > of_nat MAX_PSCAN_THREADS then of_nat MAX_PSCAN_THREADS
                        else if des1 = 0 then 1
                        else des1)
            in Some (s\<lparr>des_page_scanners := des2,
                       n_page_scanners := des2,
                       reset_hands := replicate MAX_PSCAN_THREADS True\<rparr>,
                     map LWP_KERNEL_CREATE [unat curr_nscan ..< unat des2])))
      else Some (s, []))"

text \<open>Lines 895 to 938: which threads are woken.\<close>

definition schedpaging_wake :: "kernel \<Rightarrow> pageout_vars \<Rightarrow> pageout_vars \<times> hook list" where
  "schedpaging_wake k s0 =
     (let s = s0\<lparr>zones_over := False\<rparr>
      in if freemem k < lotsfree s + needfree s \<or> PAGE_SCAN_STARTUP s then
           ((if \<not> PAGE_SCAN_STARTUP s then s\<lparr>low_mem_scan := low_mem_scan s + 1\<rparr> else s),
            [WAKE_PAGEOUT_SCANNER])
         else if zone_num_over_cap k > 0 then
           (s\<lparr>desscan := total_pages k,
              pageout_nsec := (if zone_pageout_nsec s \<noteq> 0 then zone_pageout_nsec s
                               else max_pageout_nsec s),
              zones_over := True,
              zone_cap_scan := zone_cap_scan s + 1\<rparr>,
            [WAKE_PAGEOUT_SCANNER])
         else
           ((if po_share s > MIN_PO_SHARE then s\<lparr>po_share := drop_bit 1 (po_share s)\<rparr> else s),
            [CV_SIGNAL_PAGEOUT]))"

definition schedpaging :: "kernel \<Rightarrow> pageout_vars \<Rightarrow> (pageout_vars \<times> hook list) option" where
  "schedpaging k s =
     (case schedpaging_resize k (schedpaging_rate k s) of
        None \<Rightarrow> None
      | Some (s1, created) \<Rightarrow>
          (let (s2, woken) = schedpaging_wake k s1
           in Some (s2,
                schedpaging_reap k s @ created @ woken @
                (if kmem_avail k > 0 then [CV_BROADCAST_MEMAVAIL] else []) @
                [TIMEOUT_SCHEDPAGING])))"

text \<open>
  The condition under which a tick takes the second branch of lines 897 to 938,
  the one for zones over their cap.
\<close>

definition schedpaging_zone_path :: "kernel \<Rightarrow> pageout_vars \<Rightarrow> bool" where
  "schedpaging_zone_path k s \<longleftrightarrow>
     \<not> (freemem k < lotsfree s + needfree s \<or> PAGE_SCAN_STARTUP s) \<and>
     zone_num_over_cap k > 0"

subsection \<open>The pool of writeback requests\<close>

text \<open>
  \<^verbatim>\<open>struct async_reqs\<close> is declared in a header outside the sources at hand;
  its fields are those \<^verbatim>\<open>queue_io_request\<close> assigns. The pool is an array of
  \<^verbatim>\<open>async_list_size\<close> such structures, and \<open>a_slot\<close> is the index of a
  structure in that array. The two singly linked lists, which the C only ever
  changes at the head, are lists of structures; \<open>push_arg\<close> is the local
  \<^verbatim>\<open>arg\<close> of \<^verbatim>\<open>pageout\<close> between taking a request and giving its structure
  back, and \<open>pageout_waiting\<close> says that the \<^verbatim>\<open>pageout\<close> thread is inside
  \<^verbatim>\<open>cv_wait\<close>.
\<close>

record vnode_t =
  v_id :: nat
  v_vvmexec :: bool
  v_swapfsvp :: bool

datatype bflag = B_ASYNC | B_FREE

datatype cred_t = no_cred | kcred

record async_reqs =
  a_slot :: nat
  a_vp :: "vnode_t option"
  a_off :: "64 word"
  a_len :: "64 word"
  a_flags :: "bflag list"
  a_cred :: cred_t

record push_pool =
  req_freelist :: "async_reqs list"
  push_list :: "async_reqs list"
  push_arg :: "async_reqs option"
  pageout_pushing :: bool
  pageout_pushcount :: "64 word"
  push_list_size :: "64 word"
  pushes :: pgcnt_t
  push_cv_signals :: nat
  pageout_waiting :: bool

definition PAGESIZE :: "kernel \<Rightarrow> 64 word" where
  "PAGESIZE k = push_bit (PAGESHIFT k) 1"

text \<open>
  Lines 1023 to 1028: the array comes zeroed from \<^verbatim>\<open>kmem_zalloc\<close> and its
  structures are chained in index order.
\<close>

definition zeroed_req :: "nat \<Rightarrow> async_reqs" where
  "zeroed_req i = \<lparr>a_slot = i, a_vp = None, a_off = 0, a_len = 0, a_flags = [],
     a_cred = no_cred\<rparr>"

definition pageout_pool_init :: "int \<Rightarrow> push_pool" where
  "pageout_pool_init async_list_size =
     \<lparr>req_freelist = map zeroed_req [0 ..< nat async_list_size],
      push_list = [],
      push_arg = None,
      pageout_pushing = False,
      pageout_pushcount = 0,
      push_list_size = 0,
      pushes = 0,
      push_cv_signals = 0,
      pageout_waiting = False\<rparr>"

text \<open>Lines 1624 to 1662.\<close>

definition queue_io_request ::
  "kernel \<Rightarrow> push_pool \<Rightarrow> vnode_t \<Rightarrow> 64 word \<Rightarrow> int \<times> push_pool" where
  "queue_io_request k pool vp off =
     (case req_freelist pool of
        [] \<Rightarrow> (0, pool)
      | arg # rest \<Rightarrow>
          (1, pool\<lparr>req_freelist := rest,
                   push_list_size := push_list_size pool + 1,
                   push_list :=
                     arg\<lparr>a_vp := Some vp, a_off := off, a_len := PAGESIZE k,
                         a_flags := [B_ASYNC, B_FREE], a_cred := kcred\<rparr> # push_list pool,
                   push_cv_signals :=
                     (if rest = [] then push_cv_signals pool + 1
                      else push_cv_signals pool)\<rparr>))"

text \<open>
  Lines 1055 to 1085, the loop of the \<^verbatim>\<open>pageout\<close> thread, in the steps
  between which it gives up \<^verbatim>\<open>push_lock\<close>. The thread is at the top of its
  loop when \<open>push_arg\<close> is \<open>None\<close> and \<open>pageout_waiting\<close> is false, inside
  \<^verbatim>\<open>cv_wait\<close> when \<open>push_arg\<close> is \<open>None\<close> and \<open>pageout_waiting\<close> is true,
  and in \<^verbatim>\<open>VOP_PUTPAGE\<close> when \<open>push_arg\<close> holds a structure. A step that
  the thread cannot take in a state leaves the state as it is.

  Lines 1058 to 1067 with the lock held: the test of the \<^verbatim>\<open>while\<close> loop, which
  either sends the thread into \<^verbatim>\<open>cv_wait\<close> or lets it take the head of the
  pending list.
\<close>

definition pageout_must_wait :: "pgcnt_t \<Rightarrow> push_pool \<Rightarrow> bool" where
  "pageout_must_wait max_pushes pool \<longleftrightarrow>
     push_list pool = [] \<or> pushes pool > max_pushes"

definition pageout_loop_test :: "pgcnt_t \<Rightarrow> push_pool \<Rightarrow> push_pool" where
  "pageout_loop_test max_pushes pool =
     (if pageout_must_wait max_pushes pool then pool\<lparr>pageout_waiting := True\<rparr>
      else
        (case push_list pool of
           [] \<Rightarrow> pool
         | arg # rest \<Rightarrow>
             pool\<lparr>push_list := rest, push_arg := Some arg, pageout_pushing := True,
                  pageout_waiting := False\<rparr>))"

text \<open>
  The thread comes to the test from the top of its loop (line 1056), or
  \<^verbatim>\<open>cv_wait\<close> returns, \<^verbatim>\<open>pushes\<close> is set to zero (line 1061) and the thread
  comes to the test again.
\<close>

definition pageout_take :: "pgcnt_t \<Rightarrow> push_pool \<Rightarrow> push_pool" where
  "pageout_take max_pushes pool =
     (if push_arg pool = None \<and> \<not> pageout_waiting pool
      then pageout_loop_test max_pushes pool else pool)"

definition pageout_wakeup :: "pgcnt_t \<Rightarrow> push_pool \<Rightarrow> push_pool" where
  "pageout_wakeup max_pushes pool =
     (if push_arg pool = None \<and> pageout_waiting pool
      then pageout_loop_test max_pushes (pool\<lparr>pushes := 0\<rparr>) else pool)"

text \<open>
  Lines 1070 to 1084: \<^verbatim>\<open>VOP_PUTPAGE\<close> has returned (the flag says whether it
  returned 0) and the structure goes back on the freelist.
\<close>

definition pageout_done :: "bool \<Rightarrow> push_pool \<Rightarrow> push_pool" where
  "pageout_done putpage_ok pool =
     (case push_arg pool of
        None \<Rightarrow> pool
      | Some arg \<Rightarrow>
          pool\<lparr>pushes := (if putpage_ok then pushes pool + 1 else pushes pool),
               pageout_pushing := False,
               pageout_pushcount := pageout_pushcount pool + 1,
               req_freelist := arg # req_freelist pool,
               push_list_size := push_list_size pool - 1,
               push_arg := None\<rparr>)"

text \<open>Any interleaving of the scanners' requests with the steps of the thread.\<close>

datatype pool_op =
    QUEUE_IO_REQUEST vnode_t "64 word"
  | PAGEOUT_WAKEUP
  | PAGEOUT_TAKE
  | PAGEOUT_DONE bool

fun pool_step :: "kernel \<Rightarrow> pgcnt_t \<Rightarrow> push_pool \<Rightarrow> pool_op \<Rightarrow> push_pool" where
  "pool_step k max_pushes pool (QUEUE_IO_REQUEST vp off) = snd (queue_io_request k pool vp off)"
| "pool_step k max_pushes pool PAGEOUT_WAKEUP = pageout_wakeup max_pushes pool"
| "pool_step k max_pushes pool PAGEOUT_TAKE = pageout_take max_pushes pool"
| "pool_step k max_pushes pool (PAGEOUT_DONE ok) = pageout_done ok pool"

definition pool_run :: "kernel \<Rightarrow> pgcnt_t \<Rightarrow> push_pool \<Rightarrow> pool_op list \<Rightarrow> push_pool" where
  "pool_run k max_pushes pool ops = foldl (pool_step k max_pushes) pool ops"

text \<open>Requests queued one after another, with nothing drained in between.\<close>

definition queue_all :: "kernel \<Rightarrow> push_pool \<Rightarrow> (vnode_t \<times> 64 word) list \<Rightarrow> push_pool" where
  "queue_all k pool reqs =
     foldl (\<lambda>p (vp, off). snd (queue_io_request k p vp off)) pool reqs"

text \<open>The invariant of the pool, in the words of the specification.\<close>

definition pool_in_flight :: "push_pool \<Rightarrow> nat" where
  "pool_in_flight pool = (if pageout_pushing pool then 1 else 0)"

definition pool_invariant :: "nat \<Rightarrow> push_pool \<Rightarrow> bool" where
  "pool_invariant async_list_size pool \<longleftrightarrow>
     length (push_list pool) + length (req_freelist pool) + pool_in_flight pool
       = async_list_size \<and>
     length (push_list pool) \<le> async_list_size"

subsection \<open>\<^verbatim>\<open>pageout_deadman\<close>\<close>

record deadman_vars =
  pageout_deadman_seconds :: uint_t
  pageout_stucktime :: uint_t
  pageout_pushcount_seen :: "64 word"

datatype panic = PANIC_pageout_deadman uint_t pgcnt_t

definition deadman_reset :: "push_pool \<Rightarrow> deadman_vars \<Rightarrow> deadman_vars" where
  "deadman_reset pool d =
     d\<lparr>pageout_stucktime := 0, pageout_pushcount_seen := pageout_pushcount pool\<rparr>"

text \<open>Lines 1356 to 1403. A panic does not return: it is the left summand.\<close>

definition pageout_deadman ::
  "kernel \<Rightarrow> push_pool \<Rightarrow> deadman_vars \<Rightarrow> panic + deadman_vars" where
  "pageout_deadman k pool d =
     (if panicstr k \<noteq> None then Inr d
      else if pageout_deadman_seconds d = 0 then Inr d
      else if \<not> pageout_pushing pool then Inr (deadman_reset pool d)
      else if pageout_pushcount pool \<noteq> pageout_pushcount_seen d then
        Inr (deadman_reset pool d)
      else
        (let d' = d\<lparr>pageout_stucktime := pageout_stucktime d + 1\<rparr>
         in if pageout_stucktime d' \<ge> pageout_deadman_seconds d'
            then Inl (PANIC_pageout_deadman (pageout_deadman_seconds d') (freemem k))
            else Inr d'))"

text \<open>
  \<^verbatim>\<open>clock\<close> runs the deadman once per second; the list holds the state of the
  pool that each run finds.
\<close>

fun deadman_run :: "kernel \<Rightarrow> push_pool list \<Rightarrow> deadman_vars \<Rightarrow> panic + deadman_vars" where
  "deadman_run k [] d = Inr d"
| "deadman_run k (pool # pools) d =
     (case pageout_deadman k pool d of
        Inl p \<Rightarrow> Inl p
      | Inr d' \<Rightarrow> deadman_run k pools d')"

text \<open>
  A run in which every check finds work done: no push in flight, or a push
  count other than the one the check before it saw.
\<close>

fun progressing :: "64 word \<Rightarrow> push_pool list \<Rightarrow> bool" where
  "progressing seen [] = True"
| "progressing seen (pool # pools) =
     ((\<not> pageout_pushing pool \<or> pageout_pushcount pool \<noteq> seen) \<and>
      progressing (pageout_pushcount pool) pools)"

subsection \<open>\<^verbatim>\<open>checkpage\<close>\<close>

text \<open>
  The page structure, the HAT layer and the zone accounting are outside the
  file. A page is the record of the fields that \<^verbatim>\<open>checkpage\<close> reads. The
  first test reads them without a lock, so what the function sees once it holds
  the lock may differ: the record \<open>host\<close> carries the page as it is under the
  lock, together with what each call into the rest of the kernel returns.
\<close>

datatype pageout_hand_t = POH_FRONT | POH_BACK

datatype checkpage_result_t = CKP_INELIGIBLE | CKP_NOT_FREED | CKP_FREED

datatype pattr = P_MOD | P_REF

datatype hat_sync_flag =
  HAT_SYNC_ZERORM | HAT_SYNC_DONTZERO | HAT_SYNC_STOPON_REF | HAT_SYNC_STOPON_SHARED

record page_t =
  PP_ISKAS :: bool
  PAGE_LOCKED :: bool
  PP_ISFREE :: bool
  p_lckcnt :: "32 word"
  p_cowcnt :: "32 word"
  p_zoneid :: int
  p_vnode :: "vnode_t option"
  p_offset :: "64 word"
  p_szc :: "8 word"

record host =
  hat_page_checkshare_ret :: "64 word \<Rightarrow> bool"
  page_trylock_ret :: bool
  page_locked :: page_t
  zpers_over :: "int \<Rightarrow> 64 word"
  hat_pagesync_ret :: "hat_sync_flag list \<Rightarrow> pattr set"
  page_try_demote_pages_ret :: bool
  hat_page_getattr_demoted :: "pattr set"
  hat_page_getattr_unloaded :: "pattr set"

text \<open>
  Modelled from the spec: \<^verbatim>\<open>ALL_ZONES\<close> is defined in a header outside the
  sources at hand; it is the zone id of a page that has no zone, a value that
  is not the id of any zone.
\<close>

definition ALL_ZONES :: int where
  "ALL_ZONES = - 1"

datatype zpo = ZPO_DIRTY | ZPO_ANONDIRTY | ZPO_FS | ZPO_ANON

datatype vmstat = DFREE | EXECFREE | FSFREE | ANONFREE

text \<open>The calls \<^verbatim>\<open>checkpage\<close> makes on the page, in the order it makes them.\<close>

datatype call =
    PAGE_TRYLOCK bool
  | PAGE_UNLOCK
  | HAT_PAGESYNC "hat_sync_flag list"
  | HAT_CLRREF
  | PAGE_TRY_DEMOTE_PAGES bool
  | HAT_PAGE_GETATTR
  | VN_HOLD vnode_t
  | VN_RELE vnode_t
  | QUEUE_IO "64 word" int
  | HAT_PAGEUNLOAD
  | VN_DISPOSE
  | CPU_STATS_ADD_K vmstat
  | ZONE_PAGEOUT_STAT int zpo

type_synonym checkpage_ret = "checkpage_result_t \<times> call list \<times> push_pool"

definition after_calls :: "call list \<Rightarrow> checkpage_ret \<Rightarrow> checkpage_ret" where
  "after_calls cs r = (case r of (rv, cs', pool) \<Rightarrow> (rv, cs @ cs', pool))"

text \<open>
  Lines 1513 to 1520: the page is referenced. The front hand clears the
  reference bit; either hand unlocks the page and keeps it.
\<close>

definition checkpage_isref :: "pageout_hand_t \<Rightarrow> push_pool \<Rightarrow> checkpage_ret" where
  "checkpage_isref whichhand pool =
     (CKP_NOT_FREED,
      (if whichhand = POH_FRONT then [HAT_CLRREF] else []) @ [PAGE_UNLOCK], pool)"

text \<open>Lines 1554 to 1585: a dirty page with a vnode is handed to the pool.\<close>

definition checkpage_dirty ::
  "kernel \<Rightarrow> push_pool \<Rightarrow> vnode_t \<Rightarrow> 64 word \<Rightarrow> bool \<Rightarrow> int \<Rightarrow> checkpage_ret" where
  "checkpage_dirty k pool vp offset isfs zid =
     (case queue_io_request k pool vp offset of
        (queued, pool') \<Rightarrow>
          if queued = 0 then
            (CKP_NOT_FREED,
             [VN_HOLD vp, PAGE_UNLOCK, QUEUE_IO offset queued, VN_RELE vp], pool')
          else
            (CKP_FREED,
             [VN_HOLD vp, PAGE_UNLOCK, QUEUE_IO offset queued,
              ZONE_PAGEOUT_STAT zid (if isfs then ZPO_DIRTY else ZPO_ANONDIRTY)], pool'))"

text \<open>Lines 1599 to 1615: the page goes to the free list.\<close>

definition checkpage_free :: "bool \<Rightarrow> bool \<Rightarrow> int \<Rightarrow> call list" where
  "checkpage_free isfs isexec zid =
     [VN_DISPOSE, CPU_STATS_ADD_K DFREE] @
     (if isfs then
        [CPU_STATS_ADD_K (if isexec then EXECFREE else FSFREE), ZONE_PAGEOUT_STAT zid ZPO_FS]
      else [CPU_STATS_ADD_K ANONFREE, ZONE_PAGEOUT_STAT zid ZPO_ANON])"

text \<open>
  Lines 1507 to 1615, from the label \<^verbatim>\<open>recheck\<close> on. The arguments
  \<open>ppattr\<close> and \<open>szc\<close> are the local \<^verbatim>\<open>ppattr\<close> and the field \<^verbatim>\<open>p_szc\<close>
  on arrival at the label; a successful demotion leaves \<^verbatim>\<open>p_szc\<close> zero, as
  the assertion on line 1539 says. The \<^verbatim>\<open>goto recheck\<close> is the recursive call.
\<close>

function checkpage_recheck ::
  "kernel \<Rightarrow> host \<Rightarrow> push_pool \<Rightarrow> pageout_hand_t \<Rightarrow> bool \<Rightarrow> bool \<Rightarrow> int \<Rightarrow>
   pattr set \<Rightarrow> 8 word \<Rightarrow> checkpage_ret" where
  "checkpage_recheck k h pool whichhand isfs isexec zid ppattr szc =
     (let pp = page_locked h in
      if P_REF \<in> ppattr then checkpage_isref whichhand pool
      else if szc \<noteq> 0 \<and> \<not> page_try_demote_pages_ret h then
        (CKP_INELIGIBLE, [PAGE_TRY_DEMOTE_PAGES False, PAGE_UNLOCK], pool)
      else
        (let demote = (if szc \<noteq> 0 then [PAGE_TRY_DEMOTE_PAGES True, HAT_PAGE_GETATTR] else []);
             ppattr1 = (if szc \<noteq> 0 then hat_page_getattr_demoted h else ppattr)
         in if P_MOD \<in> ppattr1 \<and> p_vnode pp \<noteq> None then
              after_calls demote
                (checkpage_dirty k pool (the (p_vnode pp)) (p_offset pp) isfs zid)
            else
              (let unload = demote @ [HAT_PAGEUNLOAD, HAT_PAGE_GETATTR];
                   ppattr2 = hat_page_getattr_unloaded h
               in if P_REF \<in> ppattr2 \<or> (P_MOD \<in> ppattr2 \<and> p_vnode pp \<noteq> None) then
                    after_calls unload
                      (checkpage_recheck k h pool whichhand isfs isexec zid ppattr2 0)
                  else
                    (CKP_FREED, unload @ checkpage_free isfs isexec zid, pool))))"
  by pat_completeness auto
termination
  by (relation "measure (\<lambda>(k, h, pool, whichhand, isfs, isexec, zid, ppattr, szc).
        if P_REF \<in> ppattr \<or> (szc = 0 \<and> P_MOD \<in> ppattr \<and> p_vnode (page_locked h) \<noteq> None)
        then 0 else 1)") auto

declare checkpage_recheck.simps [simp del]

text \<open>Lines 1417 to 1505, and then the label.\<close>

definition checkpage ::
  "kernel \<Rightarrow> pageout_vars \<Rightarrow> host \<Rightarrow> push_pool \<Rightarrow> page_t \<Rightarrow> pageout_hand_t \<Rightarrow>
   checkpage_ret" where
  "checkpage k s h pool pp0 whichhand =
     (if PP_ISKAS pp0 \<or> PAGE_LOCKED pp0 \<or> PP_ISFREE pp0 \<or>
         p_lckcnt pp0 \<noteq> 0 \<or> p_cowcnt pp0 \<noteq> 0 \<or>
         hat_page_checkshare_ret h (po_share s) then
        (CKP_INELIGIBLE, [], pool)
      else if \<not> page_trylock_ret h then
        (CKP_INELIGIBLE, [PAGE_TRYLOCK False], pool)
      else
        (let pp = page_locked h in
         if PP_ISFREE pp then
           (CKP_INELIGIBLE, [PAGE_TRYLOCK True, PAGE_UNLOCK], pool)
         else if p_lckcnt pp \<noteq> 0 \<or> p_cowcnt pp \<noteq> 0 then
           (CKP_INELIGIBLE, [PAGE_TRYLOCK True, PAGE_UNLOCK], pool)
         else if zones_over s \<and>
                 (p_zoneid pp = ALL_ZONES \<or> zpers_over h (p_zoneid pp) = 0) then
           (CKP_INELIGIBLE, [PAGE_TRYLOCK True, PAGE_UNLOCK], pool)
         else
           (let zid = (if zones_over s then p_zoneid pp else ALL_ZONES);
                isexec = (case p_vnode pp of None \<Rightarrow> False | Some vp \<Rightarrow> v_vvmexec vp);
                isfs = (case p_vnode pp of None \<Rightarrow> False | Some vp \<Rightarrow> \<not> v_swapfsvp vp);
                pagesync_flag =
                  (if whichhand = POH_FRONT then [HAT_SYNC_ZERORM]
                   else [HAT_SYNC_DONTZERO, HAT_SYNC_STOPON_REF, HAT_SYNC_STOPON_SHARED]);
                ppattr = hat_pagesync_ret h pagesync_flag
            in after_calls [PAGE_TRYLOCK True, HAT_PAGESYNC pagesync_flag]
                 (checkpage_recheck k h pool whichhand isfs isexec zid ppattr (p_szc pp)))))"

text \<open>
  Whether the caller still holds the page's exclusive lock after a sequence of
  calls: a successful \<^verbatim>\<open>page_trylock\<close> takes it, \<^verbatim>\<open>page_unlock\<close> gives it
  back and \<^verbatim>\<open>VN_DISPOSE\<close> gives the page, lock and all, to the free list.
\<close>

fun lock_held :: "bool \<Rightarrow> call list \<Rightarrow> bool" where
  "lock_held held [] = held"
| "lock_held held (PAGE_TRYLOCK ok # cs) = lock_held (held \<or> ok) cs"
| "lock_held held (PAGE_UNLOCK # cs) = lock_held False cs"
| "lock_held held (VN_DISPOSE # cs) = lock_held False cs"
| "lock_held held (c # cs) = lock_held held cs"

text \<open>
  The vnode holds a sequence of calls leaves behind (holds taken less holds
  released), and the values \<^verbatim>\<open>queue_io_request\<close> returned in it.
\<close>

fun hold_balance :: "call list \<Rightarrow> int" where
  "hold_balance [] = 0"
| "hold_balance (VN_HOLD vp # cs) = hold_balance cs + 1"
| "hold_balance (VN_RELE vp # cs) = hold_balance cs - 1"
| "hold_balance (c # cs) = hold_balance cs"

fun queue_results :: "call list \<Rightarrow> int list" where
  "queue_results [] = []"
| "queue_results (QUEUE_IO off queued # cs) = queued # queue_results cs"
| "queue_results (c # cs) = queue_results cs"

text \<open>
  The runs of \<^verbatim>\<open>checkpage\<close> that come to the handoff of a dirty page (lines
  1554 to 1585), told from the page and the answers of the rest of the kernel:
  the page passes the tests of lines 1436 to 1479 and has a vnode; it is not
  referenced when the hand syncs it; it is small, or its demotion succeeds; and
  it is modified at line 1554, or it is not and comes back from
  \<^verbatim>\<open>hat_pageunload\<close> modified and not referenced.
\<close>

definition checkpage_eligible :: "pageout_vars \<Rightarrow> host \<Rightarrow> page_t \<Rightarrow> bool" where
  "checkpage_eligible s h pp0 \<longleftrightarrow>
     \<not> PP_ISKAS pp0 \<and> \<not> PAGE_LOCKED pp0 \<and> \<not> PP_ISFREE pp0 \<and>
     p_lckcnt pp0 = 0 \<and> p_cowcnt pp0 = 0 \<and>
     \<not> hat_page_checkshare_ret h (po_share s) \<and>
     page_trylock_ret h \<and>
     \<not> PP_ISFREE (page_locked h) \<and>
     p_lckcnt (page_locked h) = 0 \<and> p_cowcnt (page_locked h) = 0 \<and>
     \<not> (zones_over s \<and>
        (p_zoneid (page_locked h) = ALL_ZONES \<or> zpers_over h (p_zoneid (page_locked h)) = 0))"

definition checkpage_hands_off ::
  "pageout_vars \<Rightarrow> host \<Rightarrow> page_t \<Rightarrow> pageout_hand_t \<Rightarrow> bool" where
  "checkpage_hands_off s h pp0 whichhand \<longleftrightarrow>
     checkpage_eligible s h pp0 \<and> p_vnode (page_locked h) \<noteq> None \<and>
     (let synced = hat_pagesync_ret h
            (if whichhand = POH_FRONT then [HAT_SYNC_ZERORM]
             else [HAT_SYNC_DONTZERO, HAT_SYNC_STOPON_REF, HAT_SYNC_STOPON_SHARED]);
          large = (p_szc (page_locked h) \<noteq> 0)
      in P_REF \<notin> synced \<and>
         (\<not> large \<or> page_try_demote_pages_ret h) \<and>
         (P_MOD \<in> (if large then hat_page_getattr_demoted h else synced) \<or>
          (P_REF \<notin> hat_page_getattr_unloaded h \<and> P_MOD \<in> hat_page_getattr_unloaded h)))"

text \<open>
  What the specification says of the handoff of a dirty page, for a run of
  \<^verbatim>\<open>checkpage\<close> on the kernel \<open>k\<close> and the host \<open>h\<close> that started with the
  pool \<open>pool\<close>. A run that did not call \<^verbatim>\<open>queue_io_request\<close> leaves no vnode
  hold and leaves the pool as it was. A run that did, called it once, for the
  vnode and the offset of the page and after taking a hold on the vnode; the
  value the run got and the pool it leaves are what \<^verbatim>\<open>queue_io_request\<close>
  returns on \<open>pool\<close>. With no structure free that value is 0, the hold is
  released, the result is \<^verbatim>\<open>CKP_NOT_FREED\<close> and the pool is unchanged. With
  a structure free the value is 1, the result is \<^verbatim>\<open>CKP_FREED\<close> and the hold
  is not released: it is left for the \<^verbatim>\<open>pageout\<close> thread.
\<close>

definition handoff_outcome :: "kernel \<Rightarrow> push_pool \<Rightarrow> host \<Rightarrow> checkpage_ret \<Rightarrow> bool" where
  "handoff_outcome k pool h r =
     (case r of (rv, cs, pool') \<Rightarrow>
        (case queue_results cs of
           [] \<Rightarrow> hold_balance cs = 0 \<and> pool' = pool
         | queued # rest \<Rightarrow>
             rest = [] \<and>
             (case p_vnode (page_locked h) of
                None \<Rightarrow> False
              | Some vp \<Rightarrow>
                  queue_io_request k pool vp (p_offset (page_locked h)) = (queued, pool') \<and>
                  QUEUE_IO (p_offset (page_locked h)) queued \<in> set cs \<and>
                  VN_HOLD vp \<in> set cs \<and>
                  (if req_freelist pool = []
                   then queued = 0 \<and> rv = CKP_NOT_FREED \<and> VN_RELE vp \<in> set cs \<and>
                        hold_balance cs = 0 \<and> pool' = pool
                   else queued = 1 \<and> rv = CKP_FREED \<and> VN_RELE vp \<notin> set cs \<and>
                        hold_balance cs = 1))))"

text \<open>
  The same for the part of a run that starts with the lock held: it ends with
  the lock given back, through one \<^verbatim>\<open>page_unlock\<close> or through one
  \<^verbatim>\<open>VN_DISPOSE\<close> and the result \<^verbatim>\<open>CKP_FREED\<close>, and it does not take the
  lock again.
\<close>

definition lock_released :: "checkpage_ret \<Rightarrow> bool" where
  "lock_released r =
     (case r of (rv, cs, pool) \<Rightarrow>
        \<not> lock_held True cs \<and> PAGE_TRYLOCK True \<notin> set cs \<and>
        ((count_list cs PAGE_UNLOCK = 1 \<and> count_list cs VN_DISPOSE = 0) \<or>
         (count_list cs PAGE_UNLOCK = 0 \<and> count_list cs VN_DISPOSE = 1 \<and> rv = CKP_FREED)))"

text \<open>
  What it means for a run of \<^verbatim>\<open>checkpage\<close> to leave the page's lock as it
  found it: the lock is not held at the end; after a successful
  \<^verbatim>\<open>page_trylock\<close> there is either one \<^verbatim>\<open>page_unlock\<close> and no
  \<^verbatim>\<open>VN_DISPOSE\<close>, or one \<^verbatim>\<open>VN_DISPOSE\<close>, no \<^verbatim>\<open>page_unlock\<close> and the
  result \<^verbatim>\<open>CKP_FREED\<close>; without one there is neither.
\<close>

definition lock_balanced :: "checkpage_ret \<Rightarrow> bool" where
  "lock_balanced r =
     (case r of (rv, cs, pool) \<Rightarrow>
        \<not> lock_held False cs \<and>
        (if PAGE_TRYLOCK True \<in> set cs then
           (count_list cs PAGE_UNLOCK = 1 \<and> count_list cs VN_DISPOSE = 0) \<or>
           (count_list cs PAGE_UNLOCK = 0 \<and> count_list cs VN_DISPOSE = 1 \<and> rv = CKP_FREED)
         else count_list cs PAGE_UNLOCK = 0 \<and> count_list cs VN_DISPOSE = 0))"


subsection \<open>The override policy in the words of the specification\<close>

text \<open>
  The specification's policy for a tunable: a value of 0, or a nonzero value at
  or above the ceiling, gives the default; any other value is kept as it is.
  This definition follows the specification, not the code; the theorems below
  compare it with what \<^verbatim>\<open>setupclock\<close> computes.
\<close>

definition spec_override_policy :: "pgcnt_t \<Rightarrow> pgcnt_t \<Rightarrow> pgcnt_t \<Rightarrow> pgcnt_t" where
  "spec_override_policy v ceiling dflt = (if v \<noteq> 0 \<and> v < ceiling then v else dflt)"

subsection \<open>The page budget in the words of the specification\<close>

text \<open>
  The specification's \<open>vavail\<close> and \<open>desscan\<close>, in the integers:
  \<open>vavail = clamp(freemem - deficit - (calibrated ? needfree : 0), 0, lotsfree)\<close>
  and
  \<open>desscan = (slowscan * vavail + fastscan * (lotsfree - vavail)) / max(lotsfree, 1) / 4\<close>.
  These definitions follow the specification, not the code; the theorems below
  compare them with what \<^verbatim>\<open>schedpaging\<close> computes.
\<close>

definition spec_vavail :: "kernel \<Rightarrow> pageout_vars \<Rightarrow> int" where
  "spec_vavail k s =
     max 0 (min (uint (lotsfree s))
              (uint (freemem k) - uint (deficit s) -
                 (if pageout_new_spread s \<noteq> 0 then uint (needfree s) else 0)))"


subsection \<open>Sample machines\<close>

text \<open>A machine with 4 KiB pages and 1 GiB of pageable memory, with memory free.\<close>

definition kernel_1g :: kernel where
  "kernel_1g = \<lparr>PAGESHIFT = 12, DISKRPM = 60, total_pages = 262144,
     freemem = 100000, kmem_reapahead = 0, zone_num_over_cap = 0,
     kcage_on = False, kcage_freemem = 0, kcage_desfree = 0, kcage_needfree = 0,
     kmem_avail = 1, panicstr = None\<rparr>"

text \<open>
  A machine with 4 KiB pages and one page more than 256 GiB of pageable memory.
\<close>

definition kernel_256g :: kernel where
  "kernel_256g = kernel_1g\<lparr>total_pages := 67108865\<rparr>"

text \<open>
  Lines 1346 and 1347: once the samples are in, the scanner stores the measured
  spread and calls \<^verbatim>\<open>setupclock\<close> again.
\<close>

definition recalc_with_spread :: "kernel \<Rightarrow> pgcnt_t \<Rightarrow> pageout_vars \<Rightarrow> pageout_vars option" where
  "recalc_with_spread k spread s = setupclock k (s\<lparr>pageout_new_spread := spread\<rparr>)"

text \<open>
  The boot call on the larger machine, then the call after a calibration that
  measured a spread of 10,000,000 pages.
\<close>

definition calibrated_256g :: "pageout_vars option" where
  "calibrated_256g =
     Option.bind (setupclock kernel_256g boot_vars) (recalc_with_spread kernel_256g 10000000)"

text \<open>The variables after a boot call, as a later call finds them: no overrides.\<close>

definition booted_vars :: pageout_vars where
  "booted_vars = boot_vars\<lparr>clockinit := (clockinit boot_vars)\<lparr>ci_init := True\<rparr>,
     pageout_new_spread := 10000000\<rparr>"

text \<open>The operator has patched \<^verbatim>\<open>throttlefree\<close> to 1800 pages before boot.\<close>

definition tuned_vars :: pageout_vars where
  "tuned_vars = boot_vars\<lparr>throttlefree := 1800\<rparr>"

text \<open>The operator has patched \<^verbatim>\<open>fastscan\<close> to 200000 pages before boot.\<close>

definition fastscan_vars :: pageout_vars where
  "fastscan_vars = boot_vars\<lparr>fastscan := 200000\<rparr>"

text \<open>
  The variables of a running system after calibration, with the thresholds of
  the specification's scenario of interpolation under pressure.
\<close>

definition running_vars :: pageout_vars where
  "running_vars = (pageout_scanner_init boot_vars)\<lparr>lotsfree := 4000, slowscan := 500,
     fastscan := 5000, handspreadpages := 5000, pageout_new_spread := 5000,
     pageout_sample_cnt := 4, des_page_scanners := 1, n_page_scanners := 1\<rparr>"

text \<open>The 1 GiB machine with 2000 pages free.\<close>

definition kernel_low :: kernel where
  "kernel_low = kernel_1g\<lparr>freemem := 2000\<rparr>"



text \<open>The 1 GiB machine with memory free and one zone over its cap.\<close>

definition kernel_zone :: kernel where
  "kernel_zone = kernel_1g\<lparr>zone_num_over_cap := 1\<rparr>"

text \<open>A vnode of a file system, and a pool whose 256 structures are all pending.\<close>

definition some_vnode :: vnode_t where
  "some_vnode = \<lparr>v_id = 7, v_vvmexec = False, v_swapfsvp = False\<rparr>"

definition saturated_pool :: push_pool where
  "saturated_pool =
     queue_all kernel_1g (pageout_pool_init 256) (replicate 256 (some_vnode, 0))"

text \<open>
  The deadman set to three seconds, in step with the pool, and a pool in which
  a push is in flight.
\<close>

definition deadman_3s :: deadman_vars where
  "deadman_3s = \<lparr>pageout_deadman_seconds = 3, pageout_stucktime = 0,
     pageout_pushcount_seen = 0\<rparr>"

definition stuck_pool :: push_pool where
  "stuck_pool = pageout_take 10
     (snd (queue_io_request kernel_1g (pageout_pool_init 256) some_vnode 0))"

text \<open>
  A large page of a file, unlocked and unshared, and a host on which the page
  is not referenced when the hand syncs it, the demotion succeeds, and the
  attributes read after the demotion say referenced and modified.
\<close>

definition large_dirty_page :: page_t where
  "large_dirty_page = \<lparr>PP_ISKAS = False, PAGE_LOCKED = False, PP_ISFREE = False,
     p_lckcnt = 0, p_cowcnt = 0, p_zoneid = 0, p_vnode = Some some_vnode,
     p_offset = 8192, p_szc = 1\<rparr>"

definition racing_host :: host where
  "racing_host = \<lparr>hat_page_checkshare_ret = (\<lambda>share. False),
     page_trylock_ret = True,
     page_locked = large_dirty_page,
     zpers_over = (\<lambda>zid. 0),
     hat_pagesync_ret = (\<lambda>flag. {}),
     page_try_demote_pages_ret = True,
     hat_page_getattr_demoted = {P_REF, P_MOD},
     hat_page_getattr_unloaded = {P_REF, P_MOD}\<rparr>"

text \<open>A small dirty page of a file, and a host on which it is not referenced.\<close>

definition small_dirty_page :: page_t where
  "small_dirty_page = large_dirty_page\<lparr>p_szc := 0\<rparr>"

definition quiet_host :: host where
  "quiet_host = racing_host\<lparr>page_locked := small_dirty_page,
     hat_pagesync_ret := (\<lambda>flag. {P_MOD})\<rparr>"

section \<open>Properties of \<^verbatim>\<open>setupclock\<close>\<close>

subsection \<open>Words\<close>

lemma tune_le: "d \<le> x \<Longrightarrow> c \<le> x \<Longrightarrow> tune v c d \<le> x"
  by (auto simp: tune_def)

lemma word64_half_le: "(d :: 64 word) div 2 \<le> d"
  by (simp add: word_le_nat_alt unat_div)

lemma word64_three_quarters_le: "(3 * d) div 4 \<le> (d :: 64 word)"
  by (simp add: word_le_nat_alt unat_div unat_word_ariths)

lemma word64_div_le: "(a :: 64 word) div b \<le> a"
  by (simp add: word_le_nat_alt unat_div)

lemma thr_lotsfree_max:
  "lotsfree_max (setupclock_thresholds k s) =
     tune (ci_lotsfree_max (clockinit s)) (looppages s) (btop k LOTSFREE_MAX_DEFAULT)"
  by (simp add: setupclock_thresholds_def Let_def)

lemma thr_lotsfree_min:
  "lotsfree_min (setupclock_thresholds k s) =
     tune (ci_lotsfree_min (clockinit s)) (lotsfree_max (setupclock_thresholds k s))
       (btop k LOTSFREE_MIN_DEFAULT)"
  by (simp add: setupclock_thresholds_def Let_def)

lemma thr_lotsfree:
  "lotsfree (setupclock_thresholds k s) =
     tune (ci_lotsfree (clockinit s)) (looppages s)
       (clamp (looppages s div ucast (lotsfree_fraction s))
          (lotsfree_min (setupclock_thresholds k s))
          (lotsfree_max (setupclock_thresholds k s)))"
  by (simp add: setupclock_thresholds_def Let_def)

lemma thr_desfree:
  "desfree (setupclock_thresholds k s) =
     tune (ci_desfree (clockinit s)) (lotsfree (setupclock_thresholds k s))
       (lotsfree (setupclock_thresholds k s) div 2)"
  by (simp add: setupclock_thresholds_def Let_def)

lemma thr_minfree:
  "minfree (setupclock_thresholds k s) =
     tune (ci_minfree (clockinit s)) (desfree (setupclock_thresholds k s))
       (if pageout_threshold_style s = 1
        then desfree (setupclock_thresholds k s) div 2
        else (3 * desfree (setupclock_thresholds k s)) div 4)"
  by (simp add: setupclock_thresholds_def Let_def)

lemma thr_throttlefree:
  "throttlefree (setupclock_thresholds k s) =
     tune (ci_throttlefree (clockinit s)) (desfree (setupclock_thresholds k s))
       (minfree (setupclock_thresholds k s))"
  by (simp add: setupclock_thresholds_def Let_def)

lemma thr_pageout_reserve:
  "pageout_reserve (setupclock_thresholds k s) =
     tune (ci_pageout_reserve (clockinit s)) (throttlefree (setupclock_thresholds k s))
       (if pageout_threshold_style s = 1
        then throttlefree (setupclock_thresholds k s) div 2
        else (3 * throttlefree (setupclock_thresholds k s)) div 4)"
  by (simp add: setupclock_thresholds_def Let_def)

lemma thr_maxpgio:
  "maxpgio (setupclock_thresholds k s) =
     (if ci_maxpgio (clockinit s) = 0 then (DISKRPM k * 2) div 3 else ci_maxpgio (clockinit s))"
  by (simp add: setupclock_thresholds_def Let_def)

lemma scn_maxfastscan:
  "maxfastscan (setupclock_scanrates k s) =
     (if ci_maxfastscan (clockinit s) = 0 then
        (if pageout_new_spread s \<noteq> 0 then pageout_new_spread s else MAXHANDSPREADPAGES k)
      else ci_maxfastscan (clockinit s))"
  by (simp add: setupclock_scanrates_def Let_def)

lemma scn_fastscan:
  "fastscan (setupclock_scanrates k s) =
     min (if ci_fastscan (clockinit s) = 0
          then min (looppages s div 2) (maxfastscan (setupclock_scanrates k s))
          else ci_fastscan (clockinit s))
       (looppages s div 2)"
  by (auto simp: setupclock_scanrates_def Let_def loopfraction_def min_def)

lemma scn_slowscan:
  "slowscan (setupclock_scanrates k s) =
     min (if ci_slowscan (clockinit s) = 0
          then min (fastscan (setupclock_scanrates k s) div 10) (maxslowscan s)
          else ci_slowscan (clockinit s))
       (fastscan (setupclock_scanrates k s) div 2)"
  by (auto simp: setupclock_scanrates_def Let_def min_def)

lemma scn_handspreadpages:
  "handspreadpages (setupclock_scanrates k s) =
     (if looppages s \<le> (if ci_handspreadpages (clockinit s) = 0
                          then fastscan (setupclock_scanrates k s)
                          else ci_handspreadpages (clockinit s))
      then looppages s - 1
      else (if ci_handspreadpages (clockinit s) = 0
            then fastscan (setupclock_scanrates k s)
            else ci_handspreadpages (clockinit s)))"
  by (simp add: setupclock_scanrates_def Let_def)

lemma scn_slow_le:
  "slowscan (setupclock_scanrates k s) \<le> fastscan (setupclock_scanrates k s) div 2"
  by (subst scn_slowscan) (rule min.cobounded2)

lemma scn_fast_le:
  "fastscan (setupclock_scanrates k s) \<le> looppages s div 2"
  by (subst scn_fastscan) (rule min.cobounded2)

lemma word64_pred_less: "(w :: 64 word) \<noteq> 0 \<Longrightarrow> w - 1 < w"
  by (simp add: word_less_nat_alt unat_minus_one unat_gt_0)

lemma word64_pred_ge1: "2 \<le> (w :: 64 word) \<Longrightarrow> 1 \<le> w - 1"
  by (cases "w = 0") (simp_all add: word_le_nat_alt unat_minus_one)

lemma word64_half_ge1: "2 \<le> (w :: 64 word) \<Longrightarrow> 1 \<le> w div 2"
  by (simp add: word_le_nat_alt unat_div)

lemma word64_ge1: "1 \<le> (w :: 64 word) \<longleftrightarrow> w \<noteq> 0"
  by (simp add: word_le_nat_alt unat_eq_0 Suc_le_eq unat_gt_0)

lemma scn_hand_lt:
  "looppages s \<noteq> 0 \<Longrightarrow> handspreadpages (setupclock_scanrates k s) < looppages s"
  by (subst scn_handspreadpages) (simp add: word64_pred_less not_le)

lemma scn_fast_ge1:
  assumes "2 \<le> looppages s"
    and "ci_maxfastscan (clockinit s) = 0 \<Longrightarrow> pageout_new_spread s = 0 \<Longrightarrow>
           MAXHANDSPREADPAGES k \<noteq> 0"
  shows "1 \<le> fastscan (setupclock_scanrates k s)"
proof -
  have m: "1 \<le> maxfastscan (setupclock_scanrates k s)"
    using assms(2) by (auto simp: scn_maxfastscan word64_ge1)
  have h: "1 \<le> looppages s div 2"
    using assms(1) by (rule word64_half_ge1)
  show ?thesis
    using m h by (subst scn_fastscan) (auto simp: word64_ge1 min_def)
qed

lemma scn_hand_ge1:
  assumes "2 \<le> looppages s"
    and "ci_maxfastscan (clockinit s) = 0 \<Longrightarrow> pageout_new_spread s = 0 \<Longrightarrow>
           MAXHANDSPREADPAGES k \<noteq> 0"
  shows "1 \<le> handspreadpages (setupclock_scanrates k s)"
proof -
  have f: "1 \<le> fastscan (setupclock_scanrates k s)"
    using assms by (rule scn_fast_ge1)
  have p: "1 \<le> looppages s - 1"
    using assms(1) by (rule word64_pred_ge1)
  show ?thesis
    using f p by (subst scn_handspreadpages) (auto simp: word64_ge1)
qed

lemma thr_frame:
  "looppages (setupclock_thresholds k s) = looppages s"
  "clockinit (setupclock_thresholds k s) = clockinit s"
  "pageout_new_spread (setupclock_thresholds k s) = pageout_new_spread s"
  "maxslowscan (setupclock_thresholds k s) = maxslowscan s"
  "min_pageout_nsec (setupclock_thresholds k s) = min_pageout_nsec s"
  "max_pageout_nsec (setupclock_thresholds k s) = max_pageout_nsec s"
  by (simp_all add: setupclock_thresholds_def Let_def)

lemma scn_frame:
  "lotsfree_max (setupclock_scanrates k s) = lotsfree_max s"
  "lotsfree_min (setupclock_scanrates k s) = lotsfree_min s"
  "lotsfree (setupclock_scanrates k s) = lotsfree s"
  "desfree (setupclock_scanrates k s) = desfree s"
  "minfree (setupclock_scanrates k s) = minfree s"
  "throttlefree (setupclock_scanrates k s) = throttlefree s"
  "pageout_reserve (setupclock_scanrates k s) = pageout_reserve s"
  "maxpgio (setupclock_scanrates k s) = maxpgio s"
  "clockinit (setupclock_scanrates k s) = clockinit s"
  "looppages (setupclock_scanrates k s) = looppages s"
  "min_pageout_nsec (setupclock_scanrates k s) = min_pageout_nsec s"
  "max_pageout_nsec (setupclock_scanrates k s) = max_pageout_nsec s"
  by (simp_all add: setupclock_scanrates_def Let_def)

lemma scanners_frame:
  assumes "setupclock_scanners k b r = Some s'"
  shows "lotsfree_max s' = lotsfree_max r \<and> lotsfree_min s' = lotsfree_min r \<and>
         lotsfree s' = lotsfree r \<and> desfree s' = desfree r \<and> minfree s' = minfree r \<and>
         throttlefree s' = throttlefree r \<and> pageout_reserve s' = pageout_reserve r \<and>
         maxpgio s' = maxpgio r \<and> maxfastscan s' = maxfastscan r \<and>
         fastscan s' = fastscan r \<and> slowscan s' = slowscan r \<and>
         handspreadpages s' = handspreadpages r \<and> clockinit s' = clockinit r \<and>
         looppages s' = looppages r \<and>
         min_pageout_nsec s' = min_pageout_nsec r \<and> max_pageout_nsec s' = max_pageout_nsec r"
  using assms
  by (auto simp: setupclock_scanners_def Let_def split: if_splits option.splits)

lemma thr_chain:
  "pageout_reserve (setupclock_thresholds k s) \<le> throttlefree (setupclock_thresholds k s)"
  "throttlefree (setupclock_thresholds k s) \<le> desfree (setupclock_thresholds k s)"
  "minfree (setupclock_thresholds k s) \<le> desfree (setupclock_thresholds k s)"
  "desfree (setupclock_thresholds k s) \<le> lotsfree (setupclock_thresholds k s)"
proof -
  show m: "minfree (setupclock_thresholds k s) \<le> desfree (setupclock_thresholds k s)"
    by (subst thr_minfree) (simp add: tune_le word64_half_le word64_three_quarters_le)
  show "throttlefree (setupclock_thresholds k s) \<le> desfree (setupclock_thresholds k s)"
    by (subst thr_throttlefree) (simp add: tune_le m)
  show "pageout_reserve (setupclock_thresholds k s) \<le> throttlefree (setupclock_thresholds k s)"
    by (subst thr_pageout_reserve) (simp add: tune_le word64_half_le word64_three_quarters_le)
  show "desfree (setupclock_thresholds k s) \<le> lotsfree (setupclock_thresholds k s)"
    by (subst thr_desfree) (simp add: tune_le word64_half_le)
qed

lemma thr_lotsfree_le:
  assumes "btop k LOTSFREE_MIN_DEFAULT \<le> looppages s"
    and "ci_lotsfree_min (clockinit s) \<le> looppages s"
  shows "lotsfree (setupclock_thresholds k s) \<le> looppages s"
proof -
  have lmin: "lotsfree_min (setupclock_thresholds k s) \<le> looppages s"
    using assms by (subst thr_lotsfree_min) (auto simp: tune_def)
  have d: "looppages s div ucast (lotsfree_fraction s) \<le> looppages s"
    by (rule word64_div_le)
  have "clamp (looppages s div ucast (lotsfree_fraction s))
          (lotsfree_min (setupclock_thresholds k s))
          (lotsfree_max (setupclock_thresholds k s)) \<le> looppages s"
    using lmin d by (auto simp: clamp_def)
  then show ?thesis
    by (subst thr_lotsfree) (simp add: tune_le)
qed

lemma thr_throttlefree_default:
  assumes "ci_throttlefree (clockinit s) = 0 \<or>
           desfree (setupclock_thresholds k s) \<le> ci_throttlefree (clockinit s)"
  shows "throttlefree (setupclock_thresholds k s) = minfree (setupclock_thresholds k s)"
  using assms by (subst thr_throttlefree) (auto simp: tune_def)

lemma thr_throttlefree_le_minfree:
  "throttlefree (setupclock_thresholds k s) \<le> minfree (setupclock_thresholds k s) \<longleftrightarrow>
     ci_throttlefree (clockinit s) = 0 \<or>
     desfree (setupclock_thresholds k s) \<le> ci_throttlefree (clockinit s) \<or>
     ci_throttlefree (clockinit s) \<le> minfree (setupclock_thresholds k s)"
  by (subst thr_throttlefree) (auto simp: tune_def)

lemma ceil_div_step:
  fixes z a t :: nat
  assumes "0 < z" and "a < t"
  shows "(t - a + z - 1) div z = Suc ((t - (a + z) + z - 1) div z)"
proof (cases "a + z \<le> t")
  case True
  then have "t - a + z - 1 = (t - (a + z) + z - 1) + z"
    using assms by simp
  then show ?thesis
    using assms(1) by (metis div_add_self2 less_numeral_extra(3) Suc_eq_plus1)
next
  case False
  then have z: "t - (a + z) = 0"
    by simp
  have "z * 1 \<le> t - a + z - 1"
    using assms by simp
  moreover have "t - a + z - 1 < z * Suc 1"
    using False assms by simp
  ultimately have "(t - a + z - 1) div z = 1"
    by (rule div_nat_eqI)
  then show ?thesis
    using assms(1) by (simp add: z)
qed

lemma scanner_count_loop_closed:
  assumes "sz \<noteq> 0" and "unat tp + unat sz \<le> 2 ^ 64"
  shows "scanner_count_loop i tmp sz tp =
           Some (i + of_nat ((unat tp - unat tmp + unat sz - 1) div unat sz))"
proof (induction "unat tp - unat tmp" arbitrary: i tmp rule: less_induct)
  case less
  have pos: "0 < unat sz"
    using assms(1) by (simp add: unat_gt_0)
  show ?case
  proof (cases "tmp < tp")
    case False
    then have "unat tp - unat tmp = 0"
      by (simp add: word_less_nat_alt)
    then have "(unat tp - unat tmp + unat sz - 1) div unat sz = 0"
      using pos by simp
    with False show ?thesis
      by (subst scanner_count_loop.simps) simp
  next
    case True
    then have lt: "unat tmp < unat tp"
      by (simp add: word_less_nat_alt)
    have nowrap: "unat (tmp + sz) = unat tmp + unat sz"
      using lt assms(2) by (simp add: unat_add_lem [THEN iffD1])
    have "unat tp - unat (tmp + sz) < unat tp - unat tmp"
      using lt pos nowrap by simp
    then have ih: "scanner_count_loop (i + 1) (tmp + sz) sz tp =
        Some (i + 1 + of_nat ((unat tp - unat (tmp + sz) + unat sz - 1) div unat sz))"
      by (rule less)
    have "(unat tp - unat tmp + unat sz - 1) div unat sz =
          Suc ((unat tp - unat (tmp + sz) + unat sz - 1) div unat sz)"
      using pos lt by (simp only: nowrap ceil_div_step)
    with True ih show ?thesis
      by (subst scanner_count_loop.simps) (simp add: add.assoc)
  qed
qed

lemma snap_frame:
  "looppages (clockinit_snapshot s) = looppages s"
  "pageout_new_spread (clockinit_snapshot s) = pageout_new_spread s"
  "maxslowscan (clockinit_snapshot s) = maxslowscan s"
  "lotsfree_fraction (clockinit_snapshot s) = lotsfree_fraction s"
  "pageout_threshold_style (clockinit_snapshot s) = pageout_threshold_style s"
  "min_pageout_nsec (clockinit_snapshot s) = min_pageout_nsec s"
  "max_pageout_nsec (clockinit_snapshot s) = max_pageout_nsec s"
  "ci_init (clockinit (clockinit_snapshot s))"
  by (simp_all add: clockinit_snapshot_def)

lemma snap_looppages:
  "clockinit (clockinit_snapshot (s\<lparr>looppages := t\<rparr>)) = clockinit (clockinit_snapshot s)"
  by (simp add: clockinit_snapshot_def)

lemma btop_pow2_ge:
  assumes "PAGESHIFT k \<le> 16" and "unat x = 2 ^ m" and "16 \<le> m"
  shows "2 ^ (m - 16) \<le> unat (btop k x)"
proof -
  let ?n = "PAGESHIFT k"
  have "(2::nat) ^ m div 2 ^ ?n = 2 ^ (m - ?n)"
    using assms by (intro power_diff [symmetric]) simp_all
  moreover have "(2::nat) ^ (m - 16) \<le> 2 ^ (m - ?n)"
    using assms by (intro power_increasing) simp_all
  moreover have "unat (btop k x) = drop_bit ?n (unat x)"
    by (simp only: btop_def unat_drop_bit_eq)
  ultimately show ?thesis
    using assms(2) by (simp only: drop_bit_eq_div)
qed

lemma btop_64g_ge:
  assumes "PAGESHIFT k \<le> 16"
  shows "2 ^ 20 \<le> unat (btop k (64 * 0x40000000))"
proof -
  have "unat (64 * 0x40000000 :: 64 word) = 2 ^ 36"
    by simp
  then have "2 ^ (36 - 16) \<le> unat (btop k (64 * 0x40000000))"
    using assms by (intro btop_pow2_ge) simp_all
  then show ?thesis
    by simp
qed

lemma region_sz_le: "scanner_region_sz k r \<le> total_pages k"
  by (auto simp: scanner_region_sz_def Let_def not_less)

lemma region_sz_eq:
  "scanner_region_sz k r =
     min (total_pages k)
       (if btop k (64 * 0x40000000) < handspreadpages r
        then 2 * handspreadpages r else btop k (64 * 0x40000000))"
  by (auto simp: scanner_region_sz_def Let_def min_def push_bit_eq_mult mult.commute)

lemma region_sz_ge:
  assumes "PAGESHIFT k \<le> 16" and "total_pages k < 2 ^ 48"
    and "handspreadpages r < total_pages k"
  shows "min (unat (total_pages k)) (2 ^ 20) \<le> unat (scanner_region_sz k r)"
proof -
  let ?B = "btop k (64 * 0x40000000)"
  let ?h = "handspreadpages r"
  have B: "2 ^ 20 \<le> unat ?B"
    using assms(1) by (rule btop_64g_ge)
  have T: "unat (total_pages k) < 2 ^ 48"
    using assms(2) by (simp add: word_less_nat_alt)
  have h: "unat ?h < 2 ^ 48"
    using assms(3) T by (simp add: word_less_nat_alt)
  then have dbl: "unat (2 * ?h) = 2 * unat ?h"
    by (simp add: unat_word_ariths)
  have "2 ^ 20 \<le> unat (if ?B < ?h then 2 * ?h else ?B)"
    using B dbl by (auto simp: word_less_nat_alt)
  then show ?thesis
    by (subst region_sz_eq) (auto simp: min_def word_le_nat_alt)
qed

lemma ceil_div_eq:
  fixes t z :: nat
  assumes "0 < z" and "0 < t"
  shows "(t + z - 1) div z = Suc ((t - 1) div z)"
proof -
  have "t + z - 1 = (t - 1) + z"
    using assms by simp
  then show ?thesis
    using assms(1) by (metis div_add_self2 less_numeral_extra(3) Suc_eq_plus1)
qed

lemma scanners_recalc:
  assumes "PAGESHIFT k \<le> 16" and "total_pages k < 2 ^ 48"
    and "total_pages k \<noteq> 0 \<Longrightarrow> handspreadpages r < total_pages k"
  shows "setupclock_scanners k True r =
           Some (r\<lparr>pscan_region_sz := scanner_region_sz k r,
                   des_page_scanners :=
                     of_nat (max 1 (min 16
                       ((unat (total_pages k) + unat (scanner_region_sz k r) - 1)
                          div unat (scanner_region_sz k r))))\<rparr>)"
proof (cases "total_pages k = 0")
  case True
  then have z: "scanner_region_sz k r = 0"
    using region_sz_le [of k r] by simp
  have "scanner_count_loop 1 0 0 0 = Some 1"
    by (subst scanner_count_loop.simps) simp
  then show ?thesis
    using True z by (simp add: setupclock_scanners_def Let_def MAX_PSCAN_THREADS_def)
next
  case False
  let ?T = "unat (total_pages k)"
  let ?sz = "scanner_region_sz k r"
  let ?z = "unat ?sz"
  have Tpos: "0 < ?T"
    using False by (simp add: unat_gt_0)
  have T: "?T < 2 ^ 48"
    using assms(2) by (simp add: word_less_nat_alt)
  have ge: "min ?T (2 ^ 20) \<le> ?z"
    using assms(1,2) assms(3) [OF False] by (rule region_sz_ge)
  have le: "?z \<le> ?T"
    using region_sz_le [of k r] by (simp add: word_le_nat_alt)
  have zpos: "0 < ?z"
    using ge Tpos by (simp add: min_def split: if_splits)
  then have nz: "?sz \<noteq> 0"
    by (simp add: unat_gt_0)
  have nowrap: "?T + ?z \<le> 2 ^ 64"
    using T le by simp
  let ?c = "(?T - 1) div ?z"
  have c_small: "?c < 2 ^ 28"
  proof (cases "?T \<le> 2 ^ 20")
    case True
    then have "?z = ?T"
      using ge le by simp
    then show ?thesis
      using Tpos by simp
  next
    case False
    then have "2 ^ 20 \<le> ?z"
      using ge by simp
    then have "?c \<le> (?T - 1) div 2 ^ 20"
      by (intro div_le_mono2) simp_all
    also have "\<dots> < 2 ^ 28"
      using T by simp
    finally show ?thesis .
  qed
  have "(?T - ?z + ?z - 1) div ?z = ?c"
    using le by simp
  then have loop: "scanner_count_loop 1 ?sz ?sz (total_pages k) = Some (1 + of_nat ?c)"
    using scanner_count_loop_closed [OF nz nowrap, of 1 ?sz] by simp
  have ceil: "(?T + ?z - 1) div ?z = Suc ?c"
    using zpos Tpos by (rule ceil_div_eq)
  have i_unat: "unat (1 + of_nat ?c :: 32 word) = Suc ?c"
  proof (rule of_nat_inverse)
    show "of_nat (Suc ?c) = (1 + of_nat ?c :: 32 word)"
      by simp
    show "Suc ?c < 2 ^ LENGTH(32)"
      using c_small by simp
  qed
  show ?thesis
  proof (cases "(1 + of_nat ?c :: 32 word) > 16")
    case True
    then have "16 < Suc ?c"
      using i_unat by (simp add: word_less_nat_alt)
    then have "max 1 (min 16 (Suc ?c)) = 16"
      by simp
    then show ?thesis
      using True loop ceil
      by (simp add: setupclock_scanners_def Let_def MAX_PSCAN_THREADS_def)
  next
    case False
    then have "Suc ?c \<le> 16"
      using i_unat by (simp add: word_less_nat_alt)
    then have "max 1 (min 16 (Suc ?c)) = Suc ?c"
      by simp
    then show ?thesis
      using False loop ceil
      by (simp add: setupclock_scanners_def Let_def MAX_PSCAN_THREADS_def)
  qed
qed

lemma MAXHANDSPREADPAGES_nonzero:
  assumes "PAGESHIFT k \<le> 16"
  shows "MAXHANDSPREADPAGES k \<noteq> 0"
proof -
  have "unat (64 * MEGABYTES) = 2 ^ 26"
    by (simp add: MEGABYTES_def)
  then have "2 ^ (26 - 16) \<le> unat (btop k (64 * MEGABYTES))"
    using assms by (intro btop_pow2_ge) simp_all
  then show ?thesis
    by (auto simp: MAXHANDSPREADPAGES_def)
qed

lemma derived_frame:
  "looppages (setupclock_derived k s) = total_pages k"
  "clockinit (setupclock_derived k s) = clockinit (clockinit_snapshot s)"
  "min_pageout_nsec (setupclock_derived k s) = min_pageout_nsec s"
  "max_pageout_nsec (setupclock_derived k s) = max_pageout_nsec s"
  "n_page_scanners (setupclock_derived k s) = n_page_scanners s"
  by (simp_all add: setupclock_derived_def scn_frame thr_frame snap_frame snap_looppages
        setupclock_scanrates_def setupclock_thresholds_def clockinit_snapshot_def Let_def)

lemma derived_hand_lt:
  "total_pages k \<noteq> 0 \<Longrightarrow> handspreadpages (setupclock_derived k s) < total_pages k"
  using scn_hand_lt [of "setupclock_thresholds k (clockinit_snapshot (s\<lparr>looppages := total_pages k\<rparr>))" k]
  by (simp add: setupclock_derived_def thr_frame snap_frame)

lemma setupclock_boot:
  assumes "lotsfree_fraction s \<noteq> 0" and "\<not> ci_init (clockinit s)"
  shows "setupclock k s =
           Some ((setupclock_derived k s)\<lparr>pscan_region_sz := total_pages k,
                   n_page_scanners := 1, des_page_scanners := 1,
                   reset_hands := (reset_hands (setupclock_derived k s))[0 := True]\<rparr>)"
  using assms by (simp add: setupclock_def setupclock_scanners_def)

lemma setupclock_recalc:
  assumes "lotsfree_fraction s \<noteq> 0" and "ci_init (clockinit s)"
    and "PAGESHIFT k \<le> 16" and "total_pages k < 2 ^ 48"
  shows "setupclock k s =
           Some ((setupclock_derived k s)\<lparr>
                   pscan_region_sz := scanner_region_sz k (setupclock_derived k s),
                   des_page_scanners :=
                     of_nat (max 1 (min 16
                       ((unat (total_pages k) + unat (scanner_region_sz k (setupclock_derived k s)) - 1)
                          div unat (scanner_region_sz k (setupclock_derived k s)))))\<rparr>)"
  using assms scanners_recalc [OF assms(3,4) derived_hand_lt, of s]
  by (simp add: setupclock_def)

lemma setupclock_returns:
  assumes "lotsfree_fraction s \<noteq> 0" and "PAGESHIFT k \<le> 16" and "total_pages k < 2 ^ 48"
  shows "\<exists>s'. setupclock k s = Some s'"
  using setupclock_boot [OF assms(1), of k] setupclock_recalc [OF assms(1) _ assms(2,3)]
  by (cases "ci_init (clockinit s)") simp_all

lemma setupclock_derived_of:
  assumes "setupclock k s = Some s'"
  shows "lotsfree_max s' = lotsfree_max (setupclock_derived k s) \<and>
         lotsfree_min s' = lotsfree_min (setupclock_derived k s) \<and>
         lotsfree s' = lotsfree (setupclock_derived k s) \<and>
         desfree s' = desfree (setupclock_derived k s) \<and>
         minfree s' = minfree (setupclock_derived k s) \<and>
         throttlefree s' = throttlefree (setupclock_derived k s) \<and>
         pageout_reserve s' = pageout_reserve (setupclock_derived k s) \<and>
         maxpgio s' = maxpgio (setupclock_derived k s) \<and>
         maxfastscan s' = maxfastscan (setupclock_derived k s) \<and>
         fastscan s' = fastscan (setupclock_derived k s) \<and>
         slowscan s' = slowscan (setupclock_derived k s) \<and>
         handspreadpages s' = handspreadpages (setupclock_derived k s) \<and>
         clockinit s' = clockinit (setupclock_derived k s) \<and>
         looppages s' = looppages (setupclock_derived k s) \<and>
         min_pageout_nsec s' = min_pageout_nsec (setupclock_derived k s) \<and>
         max_pageout_nsec s' = max_pageout_nsec (setupclock_derived k s)"
  using assms scanners_frame [of k "ci_init (clockinit s)" "setupclock_derived k s" s']
  by (simp add: setupclock_def split: if_splits)

lemma tune_is_policy: "tune v c d = spec_override_policy v c d"
  by (auto simp: tune_def spec_override_policy_def)

lemma word64_div10_le_div2: "(f :: 64 word) div 10 \<le> f div 2"
  by (simp add: word_le_nat_alt unat_div div_le_mono2)

lemma snapshot_clockinit:
  "clockinit (clockinit_snapshot s) =
     (if ci_init (clockinit s) then clockinit s
      else \<lparr>ci_init = True,
            ci_lotsfree_min = lotsfree_min s,
            ci_lotsfree_max = lotsfree_max s,
            ci_lotsfree = lotsfree s,
            ci_desfree = desfree s,
            ci_minfree = minfree s,
            ci_throttlefree = throttlefree s,
            ci_pageout_reserve = pageout_reserve s,
            ci_maxpgio = maxpgio s,
            ci_maxfastscan = maxfastscan s,
            ci_fastscan = fastscan s,
            ci_slowscan = slowscan s,
            ci_handspreadpages = handspreadpages s\<rparr>)"
  by (simp add: clockinit_snapshot_def)

lemma pageout_scanner_init_ordered:
  "sint (min_pageout_nsec (pageout_scanner_init s)) \<le> sint (max_pageout_nsec (pageout_scanner_init s))"
  by (simp add: pageout_scanner_init_def Let_def hr_MAX_def)

lemmas setupclock_eval =
  setupclock_def setupclock_derived_def setupclock_scanners_def setupclock_scanrates_def
  setupclock_thresholds_def clockinit_snapshot_def boot_vars_def kernel_1g_def tune_def
  clamp_def btop_def kernel_256g_def recalc_with_spread_def calibrated_256g_def
  booted_vars_def tuned_vars_def fastscan_vars_def Let_def LOTSFREE_MIN_DEFAULT_def LOTSFREE_MAX_DEFAULT_def MEGABYTES_def
  MAXHANDSPREADPAGES_def loopfraction_def MAX_PSCAN_THREADS_def scanner_region_sz_def


subsection \<open>The chain of thresholds\<close>

text \<open>
  With less than 16 MiB of pageable memory the floor of \<^verbatim>\<open>lotsfree\<close> is
  above the size of memory: here with 1000 pages.
\<close>

lemma setupclock_small_memory:
  "map_option lotsfree (setupclock (kernel_1g\<lparr>total_pages := 1000\<rparr>) boot_vars) = Some 4096"
  by (simp add: setupclock_eval)

text \<open>
  Claim C1, as the code has it. Take a call of \<^verbatim>\<open>setupclock\<close>, the first or a
  later one, on a machine with pages of at most 64 KiB, at least two and fewer
  than \<open>2^48\<close> pageable pages, at least 16 MiB of pageable memory, a nonzero
  \<^verbatim>\<open>lotsfree_fraction\<close> and an operator's \<^verbatim>\<open>lotsfree_min\<close> no larger than
  memory. The call returns, and afterwards
  \<open>pageout_reserve \<le> throttlefree \<le> desfree\<close>,
  \<open>minfree \<le> desfree \<le> lotsfree \<le> total_pages\<close>,
  \<open>slowscan \<le> fastscan / 2\<close> and \<open>1 \<le> handspreadpages < total_pages\<close>.
  \<open>throttlefree \<le> minfree\<close> holds exactly when the operator's
  \<^verbatim>\<open>throttlefree\<close> is zero, or not below \<^verbatim>\<open>desfree\<close>, or not above
  \<^verbatim>\<open>minfree\<close>: it fails exactly for an override above \<^verbatim>\<open>minfree\<close> and
  below \<^verbatim>\<open>desfree\<close>. The call does not touch
  \<^verbatim>\<open>min_pageout_nsec\<close> and \<^verbatim>\<open>max_pageout_nsec\<close>, so their order is kept
  (both are zero at boot), and the scanner thread, which sets them when it
  starts, sets them in order.
\<close>

theorem setupclock_threshold_chain:
  assumes frac: "lotsfree_fraction s \<noteq> 0"
    and psh: "PAGESHIFT k \<le> 16"
    and T2: "2 \<le> total_pages k"
    and Tmax: "total_pages k < 2 ^ 48"
    and lmin_default: "btop k LOTSFREE_MIN_DEFAULT \<le> total_pages k"
    and lmin_override: "ci_lotsfree_min (clockinit (clockinit_snapshot s)) \<le> total_pages k"
    and nsec: "sint (min_pageout_nsec s) \<le> sint (max_pageout_nsec s)"
  shows "\<exists>s'. setupclock k s = Some s' \<and>
           pageout_reserve s' \<le> throttlefree s' \<and>
           throttlefree s' \<le> desfree s' \<and>
           (throttlefree s' \<le> minfree s' \<longleftrightarrow>
              ci_throttlefree (clockinit s') = 0 \<or>
              desfree s' \<le> ci_throttlefree (clockinit s') \<or>
              ci_throttlefree (clockinit s') \<le> minfree s') \<and>
           minfree s' \<le> desfree s' \<and>
           desfree s' \<le> lotsfree s' \<and>
           lotsfree s' \<le> total_pages k \<and>
           slowscan s' \<le> fastscan s' div 2 \<and>
           1 \<le> handspreadpages s' \<and>
           handspreadpages s' < total_pages k \<and>
           sint (min_pageout_nsec s') \<le> sint (max_pageout_nsec s') \<and>
           sint (min_pageout_nsec (pageout_scanner_init s'))
             \<le> sint (max_pageout_nsec (pageout_scanner_init s'))"
proof -
  let ?snap = "clockinit_snapshot (s\<lparr>looppages := total_pages k\<rparr>)"
  let ?t = "setupclock_thresholds k ?snap"
  obtain s' where s': "setupclock k s = Some s'"
    using setupclock_returns [OF frac psh Tmax] by blast
  note f = setupclock_derived_of [OF s']
  have d: "setupclock_derived k s = setupclock_scanrates k ?t"
    by (simp add: setupclock_derived_def)
  have lp: "looppages ?snap = total_pages k" "looppages ?t = total_pages k"
    by (simp_all add: thr_frame snap_frame)
  have ci: "clockinit ?snap = clockinit (clockinit_snapshot s)"
    by (rule snap_looppages)
  have c1: "pageout_reserve s' \<le> throttlefree s'"
    using thr_chain(1) [of k ?snap] f by (simp add: d scn_frame)
  have c2: "throttlefree s' \<le> desfree s'"
    using thr_chain(2) [of k ?snap] f by (simp add: d scn_frame)
  have c3: "minfree s' \<le> desfree s'"
    using thr_chain(3) [of k ?snap] f by (simp add: d scn_frame)
  have c4: "desfree s' \<le> lotsfree s'"
    using thr_chain(4) [of k ?snap] f by (simp add: d scn_frame)
  have c5: "lotsfree s' \<le> total_pages k"
    using thr_lotsfree_le [of k ?snap] lmin_default lmin_override f
    by (simp add: d scn_frame lp ci)
  have c6: "throttlefree s' \<le> minfree s' \<longleftrightarrow>
              ci_throttlefree (clockinit s') = 0 \<or>
              desfree s' \<le> ci_throttlefree (clockinit s') \<or>
              ci_throttlefree (clockinit s') \<le> minfree s'"
    using thr_throttlefree_le_minfree [of k ?snap] f
    by (simp add: d scn_frame thr_frame)
  have c7: "slowscan s' \<le> fastscan s' div 2"
    using scn_slow_le [of k ?t] f by (simp add: d)
  have c8: "1 \<le> handspreadpages s'"
    using scn_hand_ge1 [of ?t k] T2 MAXHANDSPREADPAGES_nonzero [OF psh] f
    by (simp add: d lp)
  have "total_pages k \<noteq> 0"
    using T2 by auto
  then have c9: "handspreadpages s' < total_pages k"
    using derived_hand_lt [of k s] f by simp
  have c10: "sint (min_pageout_nsec s') \<le> sint (max_pageout_nsec s')"
    using nsec f by (simp add: derived_frame)
  have c11: "sint (min_pageout_nsec (pageout_scanner_init s'))
               \<le> sint (max_pageout_nsec (pageout_scanner_init s'))"
    by (rule pageout_scanner_init_ordered)
  show ?thesis
    using s' c1 c2 c3 c4 c5 c6 c7 c8 c9 c10 c11 by blast
qed

text \<open>The hypotheses of the theorem hold on the 1 GiB machine at boot.\<close>

theorem setupclock_threshold_chain_witness:
  "\<exists>s'. setupclock kernel_1g boot_vars = Some s' \<and>
           pageout_reserve s' \<le> throttlefree s' \<and>
           throttlefree s' \<le> desfree s' \<and>
           (throttlefree s' \<le> minfree s' \<longleftrightarrow>
              ci_throttlefree (clockinit s') = 0 \<or>
              desfree s' \<le> ci_throttlefree (clockinit s') \<or>
              ci_throttlefree (clockinit s') \<le> minfree s') \<and>
           minfree s' \<le> desfree s' \<and>
           desfree s' \<le> lotsfree s' \<and>
           lotsfree s' \<le> total_pages kernel_1g \<and>
           slowscan s' \<le> fastscan s' div 2 \<and>
           1 \<le> handspreadpages s' \<and>
           handspreadpages s' < total_pages kernel_1g \<and>
           sint (min_pageout_nsec s') \<le> sint (max_pageout_nsec s') \<and>
           sint (min_pageout_nsec (pageout_scanner_init s'))
             \<le> sint (max_pageout_nsec (pageout_scanner_init s'))"
proof (rule setupclock_threshold_chain)
  show "lotsfree_fraction boot_vars \<noteq> 0"
    by (simp add: boot_vars_def)
  show "PAGESHIFT kernel_1g \<le> 16"
    by (simp add: kernel_1g_def)
  show "2 \<le> total_pages kernel_1g"
    by (simp add: kernel_1g_def)
  show "total_pages kernel_1g < 2 ^ 48"
    by (simp add: kernel_1g_def)
  show "btop kernel_1g LOTSFREE_MIN_DEFAULT \<le> total_pages kernel_1g"
    by (simp add: kernel_1g_def btop_def LOTSFREE_MIN_DEFAULT_def MEGABYTES_def)
  show "ci_lotsfree_min (clockinit (clockinit_snapshot boot_vars)) \<le> total_pages kernel_1g"
    by (simp add: kernel_1g_def boot_vars_def clockinit_snapshot_def)
  show "sint (min_pageout_nsec boot_vars) \<le> sint (max_pageout_nsec boot_vars)"
    by (simp add: boot_vars_def)
qed

text \<open>
  Claim C1 as stated fails: at boot on the 1 GiB machine, with the operator's
  \<^verbatim>\<open>throttlefree\<close> of 1800 pages, \<^verbatim>\<open>setupclock\<close> keeps 1800, which is below
  \<^verbatim>\<open>desfree\<close> (2048) and above \<^verbatim>\<open>minfree\<close> (1536).
\<close>

theorem setupclock_throttlefree_above_minfree:
  "map_option throttlefree (setupclock kernel_1g tuned_vars) = Some 1800 \<and>
   map_option minfree (setupclock kernel_1g tuned_vars) = Some 1536 \<and>
   map_option desfree (setupclock kernel_1g tuned_vars) = Some 2048 \<and>
   \<not> (1800 :: pgcnt_t) \<le> 1536"
  by (simp add: setupclock_eval)

subsection \<open>The operator's overrides\<close>

text \<open>
  Claim C2, as the code has it. On a machine as above, every call of
  \<^verbatim>\<open>setupclock\<close> returns and leaves in \<^verbatim>\<open>clockinit\<close> the values the first
  call found in the variables. The seven thresholds set through \<^verbatim>\<open>tune\<close>
  follow the specification's policy: the override if it is nonzero and below
  the ceiling, the default otherwise. \<^verbatim>\<open>maxpgio\<close> and \<^verbatim>\<open>maxfastscan\<close> have
  no ceiling: any nonzero override is kept. For \<^verbatim>\<open>fastscan\<close>, \<^verbatim>\<open>slowscan\<close>
  and \<^verbatim>\<open>handspreadpages\<close> a nonzero override is kept up to the ceiling (half
  of memory, half of \<^verbatim>\<open>fastscan\<close>, below all of memory) and beyond it the
  value is the ceiling (the last page but one for \<^verbatim>\<open>handspreadpages\<close>), not
  the default.
\<close>

theorem setupclock_override_policy:
  assumes frac: "lotsfree_fraction s \<noteq> 0"
    and psh: "PAGESHIFT k \<le> 16"
    and Tmax: "total_pages k < 2 ^ 48"
  shows "\<exists>s'. setupclock k s = Some s' \<and>
     clockinit s' =
       (if ci_init (clockinit s) then clockinit s
        else \<lparr>ci_init = True,
              ci_lotsfree_min = lotsfree_min s,
              ci_lotsfree_max = lotsfree_max s,
              ci_lotsfree = lotsfree s,
              ci_desfree = desfree s,
              ci_minfree = minfree s,
              ci_throttlefree = throttlefree s,
              ci_pageout_reserve = pageout_reserve s,
              ci_maxpgio = maxpgio s,
              ci_maxfastscan = maxfastscan s,
              ci_fastscan = fastscan s,
              ci_slowscan = slowscan s,
              ci_handspreadpages = handspreadpages s\<rparr>) \<and>
     lotsfree_max s' =
       spec_override_policy (ci_lotsfree_max (clockinit s')) (total_pages k)
         (btop k LOTSFREE_MAX_DEFAULT) \<and>
     lotsfree_min s' =
       spec_override_policy (ci_lotsfree_min (clockinit s')) (lotsfree_max s')
         (btop k LOTSFREE_MIN_DEFAULT) \<and>
     lotsfree s' =
       spec_override_policy (ci_lotsfree (clockinit s')) (total_pages k)
         (clamp (total_pages k div ucast (lotsfree_fraction s))
            (lotsfree_min s') (lotsfree_max s')) \<and>
     desfree s' =
       spec_override_policy (ci_desfree (clockinit s')) (lotsfree s') (lotsfree s' div 2) \<and>
     minfree s' =
       spec_override_policy (ci_minfree (clockinit s')) (desfree s')
         (if pageout_threshold_style s = 1 then desfree s' div 2
          else (3 * desfree s') div 4) \<and>
     throttlefree s' =
       spec_override_policy (ci_throttlefree (clockinit s')) (desfree s') (minfree s') \<and>
     pageout_reserve s' =
       spec_override_policy (ci_pageout_reserve (clockinit s')) (throttlefree s')
         (if pageout_threshold_style s = 1 then throttlefree s' div 2
          else (3 * throttlefree s') div 4) \<and>
     maxpgio s' =
       (if ci_maxpgio (clockinit s') \<noteq> 0 then ci_maxpgio (clockinit s')
        else (DISKRPM k * 2) div 3) \<and>
     maxfastscan s' =
       (if ci_maxfastscan (clockinit s') \<noteq> 0 then ci_maxfastscan (clockinit s')
        else if pageout_new_spread s \<noteq> 0 then pageout_new_spread s
        else MAXHANDSPREADPAGES k) \<and>
     fastscan s' =
       (if ci_fastscan (clockinit s') = 0 then min (total_pages k div 2) (maxfastscan s')
        else min (ci_fastscan (clockinit s')) (total_pages k div 2)) \<and>
     slowscan s' =
       (if ci_slowscan (clockinit s') = 0 then min (fastscan s' div 10) (maxslowscan s)
        else min (ci_slowscan (clockinit s')) (fastscan s' div 2)) \<and>
     handspreadpages s' =
       (if ci_handspreadpages (clockinit s') = 0 then
          (if fastscan s' < total_pages k then fastscan s' else total_pages k - 1)
        else if ci_handspreadpages (clockinit s') < total_pages k
          then ci_handspreadpages (clockinit s')
        else total_pages k - 1)"
proof -
  let ?snap = "clockinit_snapshot (s\<lparr>looppages := total_pages k\<rparr>)"
  let ?t = "setupclock_thresholds k ?snap"
  obtain s' where s': "setupclock k s = Some s'"
    using setupclock_returns [OF frac psh Tmax] by blast
  note f = setupclock_derived_of [OF s']
  have d: "setupclock_derived k s = setupclock_scanrates k ?t"
    by (simp add: setupclock_derived_def)
  have ci: "clockinit s' = clockinit (clockinit_snapshot s)"
    using f by (simp add: derived_frame)
  have cs: "clockinit ?snap = clockinit s'" "clockinit ?t = clockinit s'"
    by (simp_all add: ci thr_frame snap_looppages)
  have sn: "looppages ?snap = total_pages k" "lotsfree_fraction ?snap = lotsfree_fraction s"
    "pageout_threshold_style ?snap = pageout_threshold_style s"
    "looppages ?t = total_pages k" "pageout_new_spread ?t = pageout_new_spread s"
    "maxslowscan ?t = maxslowscan s"
    by (simp_all add: snap_frame thr_frame)
  have t: "lotsfree_max s' = lotsfree_max ?t" "lotsfree_min s' = lotsfree_min ?t"
    "lotsfree s' = lotsfree ?t" "desfree s' = desfree ?t" "minfree s' = minfree ?t"
    "throttlefree s' = throttlefree ?t" "pageout_reserve s' = pageout_reserve ?t"
    "maxpgio s' = maxpgio ?t"
    using f by (simp_all add: d scn_frame)
  have r: "maxfastscan s' = maxfastscan (setupclock_scanrates k ?t)"
    "fastscan s' = fastscan (setupclock_scanrates k ?t)"
    "slowscan s' = slowscan (setupclock_scanrates k ?t)"
    "handspreadpages s' = handspreadpages (setupclock_scanrates k ?t)"
    using f by (simp_all add: d)
  have p1: "lotsfree_max s' =
       spec_override_policy (ci_lotsfree_max (clockinit s')) (total_pages k)
         (btop k LOTSFREE_MAX_DEFAULT)"
    by (simp only: t thr_lotsfree_max [of k ?snap] cs sn tune_is_policy)
  have p2: "lotsfree_min s' =
       spec_override_policy (ci_lotsfree_min (clockinit s')) (lotsfree_max s')
         (btop k LOTSFREE_MIN_DEFAULT)"
    by (simp only: t thr_lotsfree_min [of k ?snap] cs sn tune_is_policy)
  have p3: "lotsfree s' =
       spec_override_policy (ci_lotsfree (clockinit s')) (total_pages k)
         (clamp (total_pages k div ucast (lotsfree_fraction s))
            (lotsfree_min s') (lotsfree_max s'))"
    by (simp only: t thr_lotsfree [of k ?snap] cs sn tune_is_policy)
  have p4: "desfree s' =
       spec_override_policy (ci_desfree (clockinit s')) (lotsfree s') (lotsfree s' div 2)"
    by (simp only: t thr_desfree [of k ?snap] cs sn tune_is_policy)
  have p5: "minfree s' =
       spec_override_policy (ci_minfree (clockinit s')) (desfree s')
         (if pageout_threshold_style s = 1 then desfree s' div 2
          else (3 * desfree s') div 4)"
    by (simp only: t thr_minfree [of k ?snap] cs sn tune_is_policy)
  have p6: "throttlefree s' =
       spec_override_policy (ci_throttlefree (clockinit s')) (desfree s') (minfree s')"
    by (simp only: t thr_throttlefree [of k ?snap] cs sn tune_is_policy)
  have p7: "pageout_reserve s' =
       spec_override_policy (ci_pageout_reserve (clockinit s')) (throttlefree s')
         (if pageout_threshold_style s = 1 then throttlefree s' div 2
          else (3 * throttlefree s') div 4)"
    by (simp only: t thr_pageout_reserve [of k ?snap] cs sn tune_is_policy)
  have p8: "maxpgio s' =
       (if ci_maxpgio (clockinit s') \<noteq> 0 then ci_maxpgio (clockinit s')
        else (DISKRPM k * 2) div 3)"
    by (simp add: t thr_maxpgio [of k ?snap] cs)
  have p9: "maxfastscan s' =
       (if ci_maxfastscan (clockinit s') \<noteq> 0 then ci_maxfastscan (clockinit s')
        else if pageout_new_spread s \<noteq> 0 then pageout_new_spread s
        else MAXHANDSPREADPAGES k)"
    by (simp add: r scn_maxfastscan [of k ?t] cs sn)
  have p10: "fastscan s' =
       (if ci_fastscan (clockinit s') = 0 then min (total_pages k div 2) (maxfastscan s')
        else min (ci_fastscan (clockinit s')) (total_pages k div 2))"
    by (subst r(2), subst scn_fastscan) (simp add: r cs sn min.commute min.left_commute)
  have p11: "slowscan s' =
       (if ci_slowscan (clockinit s') = 0 then min (fastscan s' div 10) (maxslowscan s)
        else min (ci_slowscan (clockinit s')) (fastscan s' div 2))"
    using word64_div10_le_div2 [of "fastscan s'"]
    by (subst r(3), subst scn_slowscan) (auto simp: r cs sn min_def)
  have p12: "handspreadpages s' =
       (if ci_handspreadpages (clockinit s') = 0 then
          (if fastscan s' < total_pages k then fastscan s' else total_pages k - 1)
        else if ci_handspreadpages (clockinit s') < total_pages k
          then ci_handspreadpages (clockinit s')
        else total_pages k - 1)"
    by (subst r(4), subst scn_handspreadpages) (auto simp: r cs sn)
  have p0: "clockinit s' =
       (if ci_init (clockinit s) then clockinit s
        else \<lparr>ci_init = True,
              ci_lotsfree_min = lotsfree_min s,
              ci_lotsfree_max = lotsfree_max s,
              ci_lotsfree = lotsfree s,
              ci_desfree = desfree s,
              ci_minfree = minfree s,
              ci_throttlefree = throttlefree s,
              ci_pageout_reserve = pageout_reserve s,
              ci_maxpgio = maxpgio s,
              ci_maxfastscan = maxfastscan s,
              ci_fastscan = fastscan s,
              ci_slowscan = slowscan s,
              ci_handspreadpages = handspreadpages s\<rparr>)"
    by (simp only: ci snapshot_clockinit)
  show ?thesis
    using s' p0 p1 p2 p3 p4 p5 p6 p7 p8 p9 p10 p11 p12 by blast
qed

text \<open>The theorem on the 1 GiB machine at boot, \<^verbatim>\<open>throttlefree\<close> patched to 1800.\<close>

theorem setupclock_override_policy_witness:
  "\<exists>s'. setupclock kernel_1g tuned_vars = Some s' \<and>
     clockinit s' =
       (if ci_init (clockinit tuned_vars) then clockinit tuned_vars
        else \<lparr>ci_init = True,
              ci_lotsfree_min = lotsfree_min tuned_vars,
              ci_lotsfree_max = lotsfree_max tuned_vars,
              ci_lotsfree = lotsfree tuned_vars,
              ci_desfree = desfree tuned_vars,
              ci_minfree = minfree tuned_vars,
              ci_throttlefree = throttlefree tuned_vars,
              ci_pageout_reserve = pageout_reserve tuned_vars,
              ci_maxpgio = maxpgio tuned_vars,
              ci_maxfastscan = maxfastscan tuned_vars,
              ci_fastscan = fastscan tuned_vars,
              ci_slowscan = slowscan tuned_vars,
              ci_handspreadpages = handspreadpages tuned_vars\<rparr>) \<and>
     lotsfree_max s' =
       spec_override_policy (ci_lotsfree_max (clockinit s')) (total_pages kernel_1g)
         (btop kernel_1g LOTSFREE_MAX_DEFAULT) \<and>
     lotsfree_min s' =
       spec_override_policy (ci_lotsfree_min (clockinit s')) (lotsfree_max s')
         (btop kernel_1g LOTSFREE_MIN_DEFAULT) \<and>
     lotsfree s' =
       spec_override_policy (ci_lotsfree (clockinit s')) (total_pages kernel_1g)
         (clamp (total_pages kernel_1g div ucast (lotsfree_fraction tuned_vars))
            (lotsfree_min s') (lotsfree_max s')) \<and>
     desfree s' =
       spec_override_policy (ci_desfree (clockinit s')) (lotsfree s') (lotsfree s' div 2) \<and>
     minfree s' =
       spec_override_policy (ci_minfree (clockinit s')) (desfree s')
         (if pageout_threshold_style tuned_vars = 1 then desfree s' div 2
          else (3 * desfree s') div 4) \<and>
     throttlefree s' =
       spec_override_policy (ci_throttlefree (clockinit s')) (desfree s') (minfree s') \<and>
     pageout_reserve s' =
       spec_override_policy (ci_pageout_reserve (clockinit s')) (throttlefree s')
         (if pageout_threshold_style tuned_vars = 1 then throttlefree s' div 2
          else (3 * throttlefree s') div 4) \<and>
     maxpgio s' =
       (if ci_maxpgio (clockinit s') \<noteq> 0 then ci_maxpgio (clockinit s')
        else (DISKRPM kernel_1g * 2) div 3) \<and>
     maxfastscan s' =
       (if ci_maxfastscan (clockinit s') \<noteq> 0 then ci_maxfastscan (clockinit s')
        else if pageout_new_spread tuned_vars \<noteq> 0 then pageout_new_spread tuned_vars
        else MAXHANDSPREADPAGES kernel_1g) \<and>
     fastscan s' =
       (if ci_fastscan (clockinit s') = 0 then min (total_pages kernel_1g div 2) (maxfastscan s')
        else min (ci_fastscan (clockinit s')) (total_pages kernel_1g div 2)) \<and>
     slowscan s' =
       (if ci_slowscan (clockinit s') = 0 then min (fastscan s' div 10) (maxslowscan tuned_vars)
        else min (ci_slowscan (clockinit s')) (fastscan s' div 2)) \<and>
     handspreadpages s' =
       (if ci_handspreadpages (clockinit s') = 0 then
          (if fastscan s' < total_pages kernel_1g then fastscan s' else total_pages kernel_1g - 1)
        else if ci_handspreadpages (clockinit s') < total_pages kernel_1g
          then ci_handspreadpages (clockinit s')
        else total_pages kernel_1g - 1)"
proof (rule setupclock_override_policy)
  show "lotsfree_fraction tuned_vars \<noteq> 0"
    by (simp add: tuned_vars_def boot_vars_def)
  show "PAGESHIFT kernel_1g \<le> 16"
    by (simp add: kernel_1g_def)
  show "total_pages kernel_1g < 2 ^ 48"
    by (simp add: kernel_1g_def)
qed

text \<open>
  Claim C2 as stated fails for \<^verbatim>\<open>fastscan\<close>: at boot on the 1 GiB machine the
  operator's 200000 pages are above the ceiling, half of memory (131072). The
  value becomes that ceiling, not the default, which is the smaller of half of
  memory and \<^verbatim>\<open>maxfastscan\<close> (16384).
\<close>

theorem setupclock_fastscan_override_clamped:
  "map_option (ci_fastscan \<circ> clockinit) (setupclock kernel_1g fastscan_vars) = Some 200000 \<and>
   total_pages kernel_1g div loopfraction = 131072 \<and>
   map_option fastscan (setupclock kernel_1g fastscan_vars) = Some 131072 \<and>
   map_option maxfastscan (setupclock kernel_1g fastscan_vars) = Some 16384 \<and>
   min (total_pages kernel_1g div loopfraction) 16384 \<noteq> (131072 :: pgcnt_t)"
  by (simp add: setupclock_eval)

subsection \<open>The number of scanner threads\<close>

text \<open>
  Claim C6, as the code has it. On a machine with pages of at most 64 KiB and
  fewer than \<open>2^48\<close> pageable pages, a call of \<^verbatim>\<open>setupclock\<close> returns. On a
  call after the first, the region size is 64 GiB in pages, or twice
  \<^verbatim>\<open>handspreadpages\<close> when 64 GiB in pages is less than \<^verbatim>\<open>handspreadpages\<close>,
  and in either case at most \<^verbatim>\<open>total_pages\<close>; \<^verbatim>\<open>des_page_scanners\<close> is
  \<^verbatim>\<open>total_pages\<close> divided by the region size, rounded up, and brought into 1 to
  16; \<^verbatim>\<open>n_page_scanners\<close> is left alone. The first call sets the region size
  to \<^verbatim>\<open>total_pages\<close> and both counts to 1.
\<close>

theorem setupclock_scanner_sizing:
  assumes frac: "lotsfree_fraction s \<noteq> 0"
    and psh: "PAGESHIFT k \<le> 16"
    and Tmax: "total_pages k < 2 ^ 48"
  shows "\<exists>s'. setupclock k s = Some s' \<and>
           (if ci_init (clockinit s) then
              pscan_region_sz s' =
                min (total_pages k)
                  (if btop k (64 * 0x40000000) < handspreadpages s'
                   then 2 * handspreadpages s' else btop k (64 * 0x40000000)) \<and>
              unat (des_page_scanners s') =
                max 1 (min 16 ((unat (total_pages k) + unat (pscan_region_sz s') - 1)
                                 div unat (pscan_region_sz s'))) \<and>
              n_page_scanners s' = n_page_scanners s
            else
              pscan_region_sz s' = total_pages k \<and>
              des_page_scanners s' = 1 \<and> n_page_scanners s' = 1)"
proof (cases "ci_init (clockinit s)")
  case False
  let ?b = "(setupclock_derived k s)\<lparr>pscan_region_sz := total_pages k,
                   n_page_scanners := 1, des_page_scanners := 1,
                   reset_hands := (reset_hands (setupclock_derived k s))[0 := True]\<rparr>"
  have "setupclock k s = Some ?b"
    using frac False by (rule setupclock_boot)
  moreover have "pscan_region_sz ?b = total_pages k \<and> des_page_scanners ?b = 1 \<and> n_page_scanners ?b = 1"
    by simp
  ultimately show ?thesis
    using False by (intro exI [of _ ?b]) (simp only: if_False simp_thms)
next
  case True
  let ?r = "setupclock_derived k s"
  let ?n = "max 1 (min 16 ((unat (total_pages k) + unat (scanner_region_sz k ?r) - 1)
                             div unat (scanner_region_sz k ?r)))"
  define n where "n = ?n"
  have "n \<le> 16"
    by (simp add: n_def)
  then have "n < 2 ^ LENGTH(32)"
    by simp
  then have u: "unat (of_nat n :: 32 word) = n"
    by (intro of_nat_inverse) simp_all
  have e: "setupclock k s =
             Some (?r\<lparr>pscan_region_sz := scanner_region_sz k ?r,
                     des_page_scanners := of_nat n\<rparr>)"
    unfolding n_def by (rule setupclock_recalc [OF frac True psh Tmax])
  have r: "scanner_region_sz k ?r =
             min (total_pages k)
               (if btop k (64 * 0x40000000) < handspreadpages ?r
                then 2 * handspreadpages ?r else btop k (64 * 0x40000000))"
    by (rule region_sz_eq)
  let ?s' = "?r\<lparr>pscan_region_sz := scanner_region_sz k ?r, des_page_scanners := of_nat n\<rparr>"
  have p1: "pscan_region_sz ?s' =
              min (total_pages k)
                (if btop k (64 * 0x40000000) < handspreadpages ?s'
                 then 2 * handspreadpages ?s' else btop k (64 * 0x40000000))"
    using r by simp
  have p2: "unat (des_page_scanners ?s') =
              max 1 (min 16 ((unat (total_pages k) + unat (pscan_region_sz ?s') - 1)
                               div unat (pscan_region_sz ?s')))"
  proof -
    have "des_page_scanners ?s' = of_nat n" and "pscan_region_sz ?s' = scanner_region_sz k ?r"
      by simp_all
    then show ?thesis
      by (simp only: u) (simp only: n_def)
  qed
  have p3: "n_page_scanners ?s' = n_page_scanners s"
    by (simp add: derived_frame)
  show ?thesis
    using True e p1 p2 p3 by (intro exI [of _ ?s']) (simp only: if_True simp_thms)
qed

text \<open>The theorem on the larger machine, on a call after the first.\<close>

theorem setupclock_scanner_sizing_witness:
  "\<exists>s'. setupclock kernel_256g booted_vars = Some s' \<and>
           (if ci_init (clockinit booted_vars) then
              pscan_region_sz s' =
                min (total_pages kernel_256g)
                  (if btop kernel_256g (64 * 0x40000000) < handspreadpages s'
                   then 2 * handspreadpages s' else btop kernel_256g (64 * 0x40000000)) \<and>
              unat (des_page_scanners s') =
                max 1 (min 16 ((unat (total_pages kernel_256g) + unat (pscan_region_sz s') - 1)
                                 div unat (pscan_region_sz s'))) \<and>
              n_page_scanners s' = n_page_scanners booted_vars
            else
              pscan_region_sz s' = total_pages kernel_256g \<and>
              des_page_scanners s' = 1 \<and> n_page_scanners s' = 1)"
proof (rule setupclock_scanner_sizing)
  show "lotsfree_fraction booted_vars \<noteq> 0"
    by (simp add: booted_vars_def boot_vars_def)
  show "PAGESHIFT kernel_256g \<le> 16"
    by (simp add: kernel_256g_def kernel_1g_def)
  show "total_pages kernel_256g < 2 ^ 48"
    by (simp add: kernel_256g_def kernel_1g_def)
qed

text \<open>
  Claim C6 as stated fails: after a calibration that measured 10,000,000 pages,
  on the larger machine, \<^verbatim>\<open>handspreadpages\<close> is 10,000,000. 64 GiB is
  16,777,216 pages, which is not less, so the region is 16,777,216 pages and
  five scanners are wanted. The larger of 64 GiB in pages and twice
  \<^verbatim>\<open>handspreadpages\<close> is 20,000,000 pages, which would give four.
\<close>

theorem setupclock_region_not_max:
  "map_option handspreadpages calibrated_256g = Some 10000000 \<and>
   map_option pscan_region_sz calibrated_256g = Some 16777216 \<and>
   map_option des_page_scanners calibrated_256g = Some 5 \<and>
   min (total_pages kernel_256g) (max (btop kernel_256g (64 * 0x40000000)) (2 * 10000000))
     = 20000000 \<and>
   (unat (total_pages kernel_256g) + 20000000 - 1) div 20000000 = 4"
  by (simp add: setupclock_eval scanner_count_loop.simps)

section \<open>Properties of \<^verbatim>\<open>schedpaging\<close>\<close>

subsection \<open>Signed and unsigned readings\<close>

lemma word64_sint_of_int:
  assumes "- (2 ^ 63) \<le> x" and "x < 2 ^ 63"
  shows "sint (word_of_int x :: 64 word) = x"
proof -
  have "(x + 2 ^ 63) mod 2 ^ 64 = x + 2 ^ 63"
    using assms by (intro mod_pos_pos_trivial) simp_all
  then show ?thesis
    by (simp add: int_word_sint)
qed


lemma vavail_le: "schedpaging_vavail k s \<le> lotsfree s"
  by (simp add: schedpaging_vavail_def Let_def not_less)


lemma nz_uint: "uint (nz x) = max (uint x) 1"
proof (cases "x = 0")
  case True
  then show ?thesis by (simp add: nz_def)
next
  case False
  then have "0 < uint x"
    by (simp add: word_neq_0_conv word_less_alt)
  then show ?thesis
    using False by (simp add: nz_def)
qed

lemma interp_sum_bound:
  fixes a b l v :: int
  assumes "0 \<le> a" "0 \<le> b" "0 \<le> v" "v \<le> l"
  shows "a * v + b * (l - v) \<le> max a b * l"
proof -
  have "a * v \<le> max a b * v"
    using assms by (intro mult_right_mono) simp_all
  moreover have "b * (l - v) \<le> max a b * (l - v)"
    using assms by (intro mult_right_mono) simp_all
  ultimately have "a * v + b * (l - v) \<le> max a b * v + max a b * (l - v)"
    by simp
  also have "\<dots> = max a b * l"
    by (simp add: algebra_simps)
  finally show ?thesis .
qed

lemma word_mult_uint_le: "uint (a * b :: 64 word) \<le> uint a * uint b"
  by (simp add: uint_word_ariths zmod_le_nonneg_dividend)

lemma word_add_uint_le: "uint (a + b :: 64 word) \<le> uint a + uint b"
  by (simp add: uint_word_ariths zmod_le_nonneg_dividend)

lemma interp_uint_le:
  fixes slow fast l v :: "64 word"
  assumes v: "v \<le> l"
  shows "uint (slow * v + fast * (l - v)) \<le> uint slow * uint v + uint fast * (uint l - uint v)"
proof -
  have vl: "uint v \<le> uint l"
    using v by (simp add: word_le_def)
  have d: "uint (l - v) = uint l - uint v"
    using vl by (simp add: uint_sub_lem [THEN iffD1])
  have "uint (slow * v + fast * (l - v)) \<le> uint (slow * v) + uint (fast * (l - v))"
    by (rule word_add_uint_le)
  also have "\<dots> \<le> uint slow * uint v + uint fast * uint (l - v)"
    by (intro add_mono word_mult_uint_le)
  finally show ?thesis
    by (simp only: d)
qed



lemma rate_frame:
  "lotsfree (schedpaging_rate k s) = lotsfree s"
  "needfree (schedpaging_rate k s) = needfree s"
  "fastscan (schedpaging_rate k s) = fastscan s"
  "handspreadpages (schedpaging_rate k s) = handspreadpages s"
  "min_pageout_nsec (schedpaging_rate k s) = min_pageout_nsec s"
  "max_pageout_nsec (schedpaging_rate k s) = max_pageout_nsec s"
  "zone_pageout_nsec (schedpaging_rate k s) = zone_pageout_nsec s"
  "pageout_new_spread (schedpaging_rate k s) = pageout_new_spread s"
  "des_page_scanners (schedpaging_rate k s) = des_page_scanners s"
  "n_page_scanners (schedpaging_rate k s) = n_page_scanners s"
  "pageout_sample_cnt (schedpaging_rate k s) = pageout_sample_cnt s"
  "pageout_sample_lim (schedpaging_rate k s) = pageout_sample_lim s"
  by (simp_all add: schedpaging_rate_def Let_def)

lemma rate_desscan:
  "desscan (schedpaging_rate k s) =
     (if needfree s > 0 \<and> pageout_new_spread s = 0 then fastscan s div 4
      else (slowscan s * schedpaging_vavail k s +
            fastscan s * (lotsfree s - schedpaging_vavail k s)) div nz (lotsfree s) div 4)"
  by (simp add: schedpaging_rate_def Let_def SCHEDPAGING_HZ_def)

lemma rate_pageout_nsec:
  "pageout_nsec (schedpaging_rate k s) =
     (if pageout_new_spread s = 0 then max_pageout_nsec s
      else min_pageout_nsec s +
           ((lotsfree s - schedpaging_vavail k s) * (max_pageout_nsec s - min_pageout_nsec s))
             div nz (lotsfree s))"
  by (simp add: schedpaging_rate_def Let_def)

lemma resize_frame:
  assumes "schedpaging_resize k s = Some (s1, created)"
  shows "desscan s1 = desscan s \<and> pageout_nsec s1 = pageout_nsec s \<and>
         lotsfree s1 = lotsfree s \<and> needfree s1 = needfree s \<and> fastscan s1 = fastscan s \<and>
         min_pageout_nsec s1 = min_pageout_nsec s \<and> max_pageout_nsec s1 = max_pageout_nsec s \<and>
         zone_pageout_nsec s1 = zone_pageout_nsec s \<and>
         pageout_sample_cnt s1 = pageout_sample_cnt s \<and>
         pageout_sample_lim s1 = pageout_sample_lim s"
  using assms by (auto simp: schedpaging_resize_def Let_def split: if_splits)

lemma resize_returns:
  assumes "handspreadpages s \<noteq> 0"
  shows "\<exists>s1 created. schedpaging_resize k s = Some (s1, created)"
  using assms by (simp add: schedpaging_resize_def Let_def)

lemma wake_fields:
  "desscan (fst (schedpaging_wake k s)) =
     (if schedpaging_zone_path k s then total_pages k else desscan s)"
  "pageout_nsec (fst (schedpaging_wake k s)) =
     (if schedpaging_zone_path k s
      then (if zone_pageout_nsec s \<noteq> 0 then zone_pageout_nsec s else max_pageout_nsec s)
      else pageout_nsec s)"
  "fastscan (fst (schedpaging_wake k s)) = fastscan s"
  "min_pageout_nsec (fst (schedpaging_wake k s)) = min_pageout_nsec s"
  "max_pageout_nsec (fst (schedpaging_wake k s)) = max_pageout_nsec s"
  by (auto simp: schedpaging_wake_def schedpaging_zone_path_def PAGE_SCAN_STARTUP_def Let_def)

lemma word64_sint_eq_uint:
  assumes "uint w < 2 ^ 63"
  shows "sint (w :: 64 word) = uint w"
proof -
  have "- 9223372036854775808 \<le> uint w"
    using uint_ge_0 [of w] by linarith
  then have "sint (word_of_int (uint w) :: 64 word) = uint w"
    using assms by (intro word64_sint_of_int) simp_all
  then show ?thesis
    by simp
qed

lemma word64_uint_eq_sint:
  assumes "0 \<le> sint w"
  shows "uint (w :: 64 word) = sint w"
proof (cases "uint w < 2 ^ 63")
  case True
  then show ?thesis
    by (simp add: word64_sint_eq_uint)
next
  case False
  then have ge: "9223372036854775808 \<le> uint w"
    by simp
  have lt: "uint w < 18446744073709551616"
    using uint_bounded [of w] by simp
  have e: "(word_of_int (uint w - 2 ^ 64) :: 64 word) = w"
    by simp
  have "sint (word_of_int (uint w - 2 ^ 64) :: 64 word) = uint w - 2 ^ 64"
  proof (rule word64_sint_of_int)
    show "- (2 ^ 63) \<le> uint w - 2 ^ 64"
      using ge by simp
    show "uint w - 2 ^ 64 < 2 ^ 63"
      using lt by simp
  qed
  then have "sint w = uint w - 2 ^ 64"
    unfolding e .
  then have "sint w < 0"
    using lt by simp
  then show ?thesis
    using assms by simp
qed

lemma zone_path_cong:
  assumes "lotsfree s1 = lotsfree s" "needfree s1 = needfree s"
    "pageout_sample_cnt s1 = pageout_sample_cnt s" "pageout_sample_lim s1 = pageout_sample_lim s"
  shows "schedpaging_zone_path k s1 = schedpaging_zone_path k s"
  using assms by (simp add: schedpaging_zone_path_def PAGE_SCAN_STARTUP_def)

lemma schedpaging_result:
  assumes "handspreadpages s \<noteq> 0"
  shows "\<exists>s' hooks. schedpaging k s = Some (s', hooks) \<and>
           desscan s' =
             (if schedpaging_zone_path k s then total_pages k
              else desscan (schedpaging_rate k s)) \<and>
           pageout_nsec s' =
             (if schedpaging_zone_path k s
              then (if zone_pageout_nsec s \<noteq> 0 then zone_pageout_nsec s
                    else max_pageout_nsec s)
              else pageout_nsec (schedpaging_rate k s)) \<and>
           fastscan s' = fastscan s \<and>
           min_pageout_nsec s' = min_pageout_nsec s \<and>
           max_pageout_nsec s' = max_pageout_nsec s"
proof -
  let ?r = "schedpaging_rate k s"
  have "handspreadpages ?r \<noteq> 0"
    using assms by (simp add: rate_frame)
  then obtain s1 created where r: "schedpaging_resize k ?r = Some (s1, created)"
    using resize_returns by blast
  note f = resize_frame [OF r]
  have z: "schedpaging_zone_path k s1 = schedpaging_zone_path k s"
    using f by (intro zone_path_cong) (simp_all add: rate_frame)
  obtain s2 woken where w: "schedpaging_wake k s1 = (s2, woken)"
    by (cases "schedpaging_wake k s1")
  then have s2: "s2 = fst (schedpaging_wake k s1)"
    by simp
  have e: "schedpaging k s =
             Some (s2, schedpaging_reap k s @ created @ woken @
                       (if kmem_avail k > 0 then [CV_BROADCAST_MEMAVAIL] else []) @
                       [TIMEOUT_SCHEDPAGING])"
    by (simp add: schedpaging_def r w)
  have "desscan s2 =
          (if schedpaging_zone_path k s then total_pages k else desscan ?r)"
    unfolding s2 using f by (simp add: wake_fields z)
  moreover have "pageout_nsec s2 =
          (if schedpaging_zone_path k s
           then (if zone_pageout_nsec s \<noteq> 0 then zone_pageout_nsec s else max_pageout_nsec s)
           else pageout_nsec ?r)"
    unfolding s2 using f by (simp add: wake_fields z rate_frame)
  moreover have "fastscan s2 = fastscan s" "min_pageout_nsec s2 = min_pageout_nsec s"
    "max_pageout_nsec s2 = max_pageout_nsec s"
    unfolding s2 using f by (simp_all add: wake_fields rate_frame)
  ultimately show ?thesis
    using e by simp
qed

lemma desscan_bound:
  assumes sf: "slowscan s \<le> fastscan s"
  shows "desscan (schedpaging_rate k s) \<le> fastscan s div 4"
proof (cases "needfree s > 0 \<and> pageout_new_spread s = 0")
  case True
  then show ?thesis
    by (simp add: rate_desscan)
next
  case False
  let ?v = "schedpaging_vavail k s"
  let ?L = "uint (lotsfree s)"
  let ?F = "uint (fastscan s)"
  let ?S = "uint (slowscan s)"
  let ?num = "?S * uint ?v + ?F * (?L - uint ?v)"
  let ?w = "uint (slowscan s * ?v + fastscan s * (lotsfree s - ?v))"
  have v: "?v \<le> lotsfree s"
    by (rule vavail_le)
  then have vl: "uint ?v \<le> ?L"
    by (simp add: word_le_def)
  have SF: "?S \<le> ?F"
    using sf by (simp add: word_le_def)
  have wn: "?w \<le> ?num"
    using v by (rule interp_uint_le)
  have "?num \<le> max ?S ?F * ?L"
    using vl by (intro interp_sum_bound) simp_all
  then have "?num \<le> ?F * ?L"
    using SF by (simp add: max_def)
  then have le: "?w \<le> ?F * ?L"
    using wn by linarith
  have "?w div max ?L 1 \<le> ?F"
  proof (cases "?L = 0")
    case True
    then have "?w \<le> 0"
      using le by simp
    then have "?w = 0"
      by simp
    then show ?thesis
      by simp
  next
    case False
    then have pos: "0 < ?L"
      using uint_ge_0 [of "lotsfree s"] by linarith
    then have "?w div ?L \<le> ?F * ?L div ?L"
      using le by (intro zdiv_mono1) simp_all
    moreover have "max ?L 1 = ?L"
      using pos by linarith
    ultimately show ?thesis
      using pos by simp
  qed
  then have "?w div max ?L 1 div 4 \<le> ?F div 4"
    by (intro zdiv_mono1) simp_all
  then show ?thesis
    using False by (simp add: rate_desscan word_le_def uint_div nz_uint)
qed

lemma pageout_nsec_bound:
  assumes mn: "0 \<le> sint (min_pageout_nsec s)"
    and mx: "sint (min_pageout_nsec s) \<le> sint (max_pageout_nsec s)"
  shows "sint (min_pageout_nsec s) \<le> sint (pageout_nsec (schedpaging_rate k s)) \<and>
         sint (pageout_nsec (schedpaging_rate k s)) \<le> sint (max_pageout_nsec s)"
proof (cases "pageout_new_spread s = 0")
  case True
  then show ?thesis
    using mx by (simp add: rate_pageout_nsec)
next
  case False
  let ?v = "schedpaging_vavail k s"
  let ?L = "uint (lotsfree s)"
  let ?mn = "min_pageout_nsec s"
  let ?mx = "max_pageout_nsec s"
  let ?D = "sint ?mx - sint ?mn"
  let ?w = "uint ((lotsfree s - ?v) * (?mx - ?mn))"
  have umn: "uint ?mn = sint ?mn"
    using mn by (rule word64_uint_eq_sint)
  have umx: "uint ?mx = sint ?mx"
    using mn mx by (intro word64_uint_eq_sint) linarith
  have smx: "sint ?mx < 9223372036854775808"
    using sint_lt [of ?mx] by simp
  have D0: "0 \<le> ?D"
    using mx by simp
  have uD: "uint (?mx - ?mn) = ?D"
    using mx by (simp add: uint_sub_lem [THEN iffD1] umn umx)
  have v: "?v \<le> lotsfree s"
    by (rule vavail_le)
  then have vl: "uint ?v \<le> ?L"
    by (simp add: word_le_def)
  have ud: "uint (lotsfree s - ?v) = ?L - uint ?v"
    using vl by (simp add: uint_sub_lem [THEN iffD1])
  have "?w \<le> uint (lotsfree s - ?v) * uint (?mx - ?mn)"
    by (rule word_mult_uint_le)
  then have wp: "?w \<le> (?L - uint ?v) * ?D"
    by (simp only: ud uD)
  have "(?L - uint ?v) * ?D \<le> ?L * ?D"
    using D0 by (intro mult_right_mono) simp_all
  then have wl: "?w \<le> ?L * ?D"
    using wp by linarith
  let ?q = "?w div max ?L 1"
  have q0: "0 \<le> ?q"
    by (intro pos_imp_zdiv_nonneg_iff [THEN iffD2]) simp_all
  have qD: "?q \<le> ?D"
  proof (cases "?L = 0")
    case True
    then have "?w \<le> 0"
      using wl by simp
    then have "?w = 0"
      by simp
    then have "?q = 0"
      by (simp only: div_0)
    then show ?thesis
      using D0 by (simp only:)
  next
    case False
    then have pos: "0 < ?L"
      using uint_ge_0 [of "lotsfree s"] by linarith
    then have m: "max ?L 1 = ?L"
      by linarith
    have "?w div ?L \<le> ?L * ?D div ?L"
      using pos wl by (intro zdiv_mono1) simp_all
    then show ?thesis
      using pos by (simp add: m)
  qed
  have uq: "uint (((lotsfree s - ?v) * (?mx - ?mn)) div nz (lotsfree s)) = ?q"
    by (simp add: uint_div nz_uint)
  have "uint ?mn + ?q < 2 ^ 64"
    using qD smx mn by (simp add: umn)
  then have "uint (?mn + ((lotsfree s - ?v) * (?mx - ?mn)) div nz (lotsfree s)) = uint ?mn + ?q"
    by (simp add: uint_add_lem [THEN iffD1] uq)
  then have uP: "uint (pageout_nsec (schedpaging_rate k s)) = sint ?mn + ?q"
    using False by (simp add: rate_pageout_nsec umn)
  have "sint ?mn + ?q < 9223372036854775808"
    using qD smx by linarith
  then have "sint (pageout_nsec (schedpaging_rate k s)) = sint ?mn + ?q"
    using uP by (simp add: word64_sint_eq_uint)
  then show ?thesis
    using q0 qD by simp
qed

subsection \<open>The page budget\<close>





text \<open>
  The range of the difference matters too, though only beyond any memory there
  is: with \<open>2^63\<close> pages free the code reads the difference as negative and
  takes \<^verbatim>\<open>vavail\<close> to be 0, where the specification's clamp gives
  \<^verbatim>\<open>lotsfree\<close>.
\<close>

lemma schedpaging_vavail_signed:
  "spec_vavail (kernel_low\<lparr>freemem := 9223372036854775808\<rparr>) running_vars = 4000 \<and>
   uint (schedpaging_vavail (kernel_low\<lparr>freemem := 9223372036854775808\<rparr>) running_vars) = 0"
  by code_simp

subsection \<open>The bounds of the two budgets\<close>

text \<open>
  Claim C5, as the code has it. Let \<^verbatim>\<open>slowscan \<le> fastscan\<close> and
  \<open>0 \<le> min_pageout_nsec \<le> max_pageout_nsec\<close>, as \<^verbatim>\<open>setupclock\<close> and the
  scanner leave them, and let \<^verbatim>\<open>handspreadpages\<close> be nonzero. For every
  \<^verbatim>\<open>freemem\<close>, and whether or not the interpolations wrap around, the tick
  returns. If it does not take the branch for zones over their cap, the
  \<^verbatim>\<open>desscan\<close> it leaves is at most \<open>fastscan / 4\<close> and the \<^verbatim>\<open>pageout_nsec\<close>
  it leaves lies between \<^verbatim>\<open>min_pageout_nsec\<close> and \<^verbatim>\<open>max_pageout_nsec\<close>. If
  it takes that branch, \<^verbatim>\<open>desscan\<close> is \<^verbatim>\<open>total_pages\<close> and \<^verbatim>\<open>pageout_nsec\<close>
  is \<^verbatim>\<open>zone_pageout_nsec\<close>, or \<^verbatim>\<open>max_pageout_nsec\<close> when that is zero.
\<close>

theorem schedpaging_budgets_bounded:
  assumes sf: "slowscan s \<le> fastscan s"
    and mn: "0 \<le> sint (min_pageout_nsec s)"
    and mx: "sint (min_pageout_nsec s) \<le> sint (max_pageout_nsec s)"
    and hs: "handspreadpages s \<noteq> 0"
  shows "\<exists>s' hooks. schedpaging k s = Some (s', hooks) \<and>
           fastscan s' = fastscan s \<and>
           min_pageout_nsec s' = min_pageout_nsec s \<and>
           max_pageout_nsec s' = max_pageout_nsec s \<and>
           (if schedpaging_zone_path k s then
              desscan s' = total_pages k \<and>
              pageout_nsec s' =
                (if zone_pageout_nsec s \<noteq> 0 then zone_pageout_nsec s
                 else max_pageout_nsec s)
            else
              desscan s' \<le> fastscan s' div 4 \<and>
              sint (min_pageout_nsec s') \<le> sint (pageout_nsec s') \<and>
              sint (pageout_nsec s') \<le> sint (max_pageout_nsec s'))"
proof -
  obtain s' hooks where r: "schedpaging k s = Some (s', hooks)"
    and d: "desscan s' =
             (if schedpaging_zone_path k s then total_pages k
              else desscan (schedpaging_rate k s))"
    and p: "pageout_nsec s' =
             (if schedpaging_zone_path k s
              then (if zone_pageout_nsec s \<noteq> 0 then zone_pageout_nsec s
                    else max_pageout_nsec s)
              else pageout_nsec (schedpaging_rate k s))"
    and f: "fastscan s' = fastscan s" "min_pageout_nsec s' = min_pageout_nsec s"
      "max_pageout_nsec s' = max_pageout_nsec s"
    using schedpaging_result [OF hs, of k] by blast
  have b1: "desscan (schedpaging_rate k s) \<le> fastscan s div 4"
    using sf by (rule desscan_bound)
  have b2: "sint (min_pageout_nsec s) \<le> sint (pageout_nsec (schedpaging_rate k s)) \<and>
            sint (pageout_nsec (schedpaging_rate k s)) \<le> sint (max_pageout_nsec s)"
    using mn mx by (rule pageout_nsec_bound)
  have "if schedpaging_zone_path k s then
              desscan s' = total_pages k \<and>
              pageout_nsec s' =
                (if zone_pageout_nsec s \<noteq> 0 then zone_pageout_nsec s
                 else max_pageout_nsec s)
            else
              desscan s' \<le> fastscan s' div 4 \<and>
              sint (min_pageout_nsec s') \<le> sint (pageout_nsec s') \<and>
              sint (pageout_nsec s') \<le> sint (max_pageout_nsec s')"
    using b1 b2 by (simp add: d p f)
  then show ?thesis
    using r f by blast
qed

text \<open>The theorem in the scenario of the interpolation.\<close>

theorem schedpaging_budgets_bounded_witness:
  "\<exists>s' hooks. schedpaging kernel_low running_vars = Some (s', hooks) \<and>
           fastscan s' = fastscan running_vars \<and>
           min_pageout_nsec s' = min_pageout_nsec running_vars \<and>
           max_pageout_nsec s' = max_pageout_nsec running_vars \<and>
           (if schedpaging_zone_path kernel_low running_vars then
              desscan s' = total_pages kernel_low \<and>
              pageout_nsec s' =
                (if zone_pageout_nsec running_vars \<noteq> 0 then zone_pageout_nsec running_vars
                 else max_pageout_nsec running_vars)
            else
              desscan s' \<le> fastscan s' div 4 \<and>
              sint (min_pageout_nsec s') \<le> sint (pageout_nsec s') \<and>
              sint (pageout_nsec s') \<le> sint (max_pageout_nsec s'))"
proof (rule schedpaging_budgets_bounded)
  show "slowscan running_vars \<le> fastscan running_vars"
    by code_simp
  show "0 \<le> sint (min_pageout_nsec running_vars)"
    by code_simp
  show "sint (min_pageout_nsec running_vars) \<le> sint (max_pageout_nsec running_vars)"
    by code_simp
  show "handspreadpages running_vars \<noteq> 0"
    by code_simp
qed

text \<open>
  Claim C5 as stated fails: with memory free and one zone over its cap the
  tick leaves \<^verbatim>\<open>total_pages\<close>, 262144, in \<^verbatim>\<open>desscan\<close>, far above
  \<open>fastscan / 4\<close>.
\<close>

theorem schedpaging_zone_desscan_unbounded:
  "schedpaging_zone_path kernel_zone running_vars \<and>
   map_option (desscan \<circ> fst) (schedpaging kernel_zone running_vars) = Some 262144 \<and>
   map_option (fastscan \<circ> fst) (schedpaging kernel_zone running_vars) = Some 5000 \<and>
   \<not> (262144 :: pgcnt_t) \<le> 5000 div 4"
  by code_simp

section \<open>Properties of the pool of writeback requests\<close>

lemma pool_init_invariant: "pool_invariant (nat n) (pageout_pool_init n)"
  by (simp add: pool_invariant_def pageout_pool_init_def pool_in_flight_def)

lemma pool_init_consistent:
  "pageout_pushing (pageout_pool_init n) \<longleftrightarrow> push_arg (pageout_pool_init n) \<noteq> None"
  by (simp add: pageout_pool_init_def)

lemma queue_io_request_empty:
  "req_freelist pool = [] \<Longrightarrow> queue_io_request k pool vp off = (0, pool)"
  by (simp add: queue_io_request_def)

lemma queue_io_request_nonempty:
  "req_freelist pool \<noteq> [] \<Longrightarrow> fst (queue_io_request k pool vp off) = 1"
  by (cases "req_freelist pool") (simp_all add: queue_io_request_def)

lemma queue_io_request_lists:
  "req_freelist pool \<noteq> [] \<Longrightarrow>
     length (req_freelist (snd (queue_io_request k pool vp off))) = length (req_freelist pool) - 1 \<and>
     length (push_list (snd (queue_io_request k pool vp off))) = length (push_list pool) + 1 \<and>
     push_arg (snd (queue_io_request k pool vp off)) = push_arg pool \<and>
     pageout_pushing (snd (queue_io_request k pool vp off)) = pageout_pushing pool"
  by (cases "req_freelist pool") (simp_all add: queue_io_request_def)

lemma pool_step_invariant:
  assumes "pool_invariant m pool" and "pageout_pushing pool \<longleftrightarrow> push_arg pool \<noteq> None"
  shows "pool_invariant m (pool_step k mp pool op) \<and>
         (pageout_pushing (pool_step k mp pool op) \<longleftrightarrow> push_arg (pool_step k mp pool op) \<noteq> None)"
proof (cases op)
  case (QUEUE_IO_REQUEST vp off)
  show ?thesis
  proof (cases "req_freelist pool")
    case Nil
    then show ?thesis
      using assms QUEUE_IO_REQUEST by (simp add: queue_io_request_def)
  next
    case (Cons a rest)
    then show ?thesis
      using assms QUEUE_IO_REQUEST
      by (auto simp: queue_io_request_def pool_invariant_def pool_in_flight_def)
  qed
next
  case PAGEOUT_WAKEUP
  show ?thesis
  proof (cases "push_list pool")
    case Nil
    then show ?thesis
      using assms PAGEOUT_WAKEUP
      by (auto simp: pageout_wakeup_def pageout_loop_test_def pageout_must_wait_def
          pool_invariant_def pool_in_flight_def)
  next
    case (Cons a rest)
    then show ?thesis
      using assms PAGEOUT_WAKEUP
      by (auto simp: pageout_wakeup_def pageout_loop_test_def pageout_must_wait_def
          pool_invariant_def pool_in_flight_def)
  qed
next
  case PAGEOUT_TAKE
  show ?thesis
  proof (cases "push_list pool")
    case Nil
    then show ?thesis
      using assms PAGEOUT_TAKE
      by (auto simp: pageout_take_def pageout_loop_test_def pageout_must_wait_def
          pool_invariant_def pool_in_flight_def)
  next
    case (Cons a rest)
    then show ?thesis
      using assms PAGEOUT_TAKE
      by (auto simp: pageout_take_def pageout_loop_test_def pageout_must_wait_def
          pool_invariant_def pool_in_flight_def)
  qed
next
  case (PAGEOUT_DONE ok)
  show ?thesis
  proof (cases "push_arg pool")
    case None
    then show ?thesis
      using assms PAGEOUT_DONE by (simp add: pageout_done_def)
  next
    case (Some a)
    then show ?thesis
      using assms PAGEOUT_DONE
      by (auto simp: pageout_done_def pool_invariant_def pool_in_flight_def)
  qed
qed

lemma pool_run_invariant:
  assumes "pool_invariant m pool" and "pageout_pushing pool \<longleftrightarrow> push_arg pool \<noteq> None"
  shows "pool_invariant m (pool_run k mp pool ops) \<and>
         (pageout_pushing (pool_run k mp pool ops) \<longleftrightarrow> push_arg (pool_run k mp pool ops) \<noteq> None)"
  using assms
proof (induction ops arbitrary: pool)
  case Nil
  then show ?case
    by (simp add: pool_run_def)
next
  case (Cons op ops)
  have "pool_run k mp pool (op # ops) = pool_run k mp (pool_step k mp pool op) ops"
    by (simp add: pool_run_def)
  then show ?case
    using Cons.IH pool_step_invariant [OF Cons.prems] by simp
qed

lemma queue_all_freelist:
  "length (req_freelist (queue_all k pool reqs)) = length (req_freelist pool) - length reqs"
proof (induction reqs arbitrary: pool)
  case Nil
  then show ?case
    by (simp add: queue_all_def)
next
  case (Cons r reqs)
  obtain vp off where r: "r = (vp, off)"
    by (cases r)
  have e: "queue_all k pool (r # reqs) = queue_all k (snd (queue_io_request k pool vp off)) reqs"
    by (simp add: queue_all_def r)
  have "length (req_freelist (snd (queue_io_request k pool vp off))) = length (req_freelist pool) - 1"
    by (cases "req_freelist pool") (simp_all add: queue_io_request_def)
  then show ?case
    by (simp add: e Cons.IH)
qed

text \<open>
  Claim C7. With \<open>n\<close> structures the pool starts with all of them on the
  freelist, and every step (a scanner queueing a request, the \<^verbatim>\<open>pageout\<close>
  thread waking, taking the head of the pending list, or giving a structure
  back) keeps the number pending plus the number free plus the number in flight
  (0 or 1) equal to \<open>n\<close>, and the number pending at most \<open>n\<close>. So this holds
  after any sequence of steps, and with 256 structures the sum is 256.
\<close>

theorem pool_invariant_preserved:
  "pool_invariant (nat n) (pageout_pool_init n) \<and>
   (pool_invariant m pool \<and> (pageout_pushing pool \<longleftrightarrow> push_arg pool \<noteq> None) \<longrightarrow>
      pool_invariant m (pool_step k mp pool op) \<and>
      (pageout_pushing (pool_step k mp pool op) \<longleftrightarrow> push_arg (pool_step k mp pool op) \<noteq> None)) \<and>
   pool_invariant (nat n) (pool_run k mp (pageout_pool_init n) ops) \<and>
   length (push_list (pool_run k mp (pageout_pool_init 256) ops)) +
     length (req_freelist (pool_run k mp (pageout_pool_init 256) ops)) +
     pool_in_flight (pool_run k mp (pageout_pool_init 256) ops) = 256 \<and>
   length (push_list (pool_run k mp (pageout_pool_init 256) ops)) \<le> 256"
proof -
  have a: "pool_invariant (nat n) (pool_run k mp (pageout_pool_init n) ops)" for n
    using pool_run_invariant [OF pool_init_invariant pool_init_consistent] by blast
  have b: "pool_invariant m pool \<and> (pageout_pushing pool \<longleftrightarrow> push_arg pool \<noteq> None) \<longrightarrow>
      pool_invariant m (pool_step k mp pool op) \<and>
      (pageout_pushing (pool_step k mp pool op) \<longleftrightarrow> push_arg (pool_step k mp pool op) \<noteq> None)"
    using pool_step_invariant by blast
  have "pool_invariant (nat 256) (pool_run k mp (pageout_pool_init 256) ops)"
    by (rule a)
  then have c: "length (push_list (pool_run k mp (pageout_pool_init 256) ops)) +
     length (req_freelist (pool_run k mp (pageout_pool_init 256) ops)) +
     pool_in_flight (pool_run k mp (pageout_pool_init 256) ops) = 256 \<and>
   length (push_list (pool_run k mp (pageout_pool_init 256) ops)) \<le> 256"
    by (simp add: pool_invariant_def)
  show ?thesis
    using pool_init_invariant a b c by (intro conjI) blast+
qed

text \<open>The theorem after a request has gone through the pool of 256.\<close>

theorem pool_invariant_preserved_witness:
  "pool_invariant 256
     (pool_run kernel_1g 10 (pageout_pool_init 256)
        [QUEUE_IO_REQUEST some_vnode 0, PAGEOUT_TAKE, PAGEOUT_DONE True])"
proof -
  have "pool_invariant (nat 256)
     (pool_run kernel_1g 10 (pageout_pool_init 256)
        [QUEUE_IO_REQUEST some_vnode 0, PAGEOUT_TAKE, PAGEOUT_DONE True])"
    by (rule pool_invariant_preserved [THEN conjunct2, THEN conjunct2, THEN conjunct1])
  then show ?thesis
    by simp
qed

section \<open>Properties of \<^verbatim>\<open>checkpage\<close>\<close>

subsection \<open>The label \<^verbatim>\<open>recheck\<close> without the jump\<close>

lemma after_calls_Nil: "after_calls [] r = r"
  by (cases r) (simp add: after_calls_def)

lemma checkpage_recheck_again:
  assumes "P_REF \<in> a \<or> (P_MOD \<in> a \<and> p_vnode (page_locked h) \<noteq> None)"
  shows "checkpage_recheck k h pool whichhand isfs isexec zid a 0 =
           (if P_REF \<in> a then checkpage_isref whichhand pool
            else checkpage_dirty k pool (the (p_vnode (page_locked h)))
                   (p_offset (page_locked h)) isfs zid)"
  using assms
  by (subst checkpage_recheck.simps) (auto simp: Let_def after_calls_Nil)

lemma checkpage_recheck_once:
  "checkpage_recheck k h pool whichhand isfs isexec zid ppattr szc =
     (let pp = page_locked h in
      if P_REF \<in> ppattr then checkpage_isref whichhand pool
      else if szc \<noteq> 0 \<and> \<not> page_try_demote_pages_ret h then
        (CKP_INELIGIBLE, [PAGE_TRY_DEMOTE_PAGES False, PAGE_UNLOCK], pool)
      else
        (let demote = (if szc \<noteq> 0 then [PAGE_TRY_DEMOTE_PAGES True, HAT_PAGE_GETATTR] else []);
             ppattr1 = (if szc \<noteq> 0 then hat_page_getattr_demoted h else ppattr)
         in if P_MOD \<in> ppattr1 \<and> p_vnode pp \<noteq> None then
              after_calls demote
                (checkpage_dirty k pool (the (p_vnode pp)) (p_offset pp) isfs zid)
            else
              (let unload = demote @ [HAT_PAGEUNLOAD, HAT_PAGE_GETATTR];
                   ppattr2 = hat_page_getattr_unloaded h
               in if P_REF \<in> ppattr2 then
                    after_calls unload (checkpage_isref whichhand pool)
                  else if P_MOD \<in> ppattr2 \<and> p_vnode pp \<noteq> None then
                    after_calls unload
                      (checkpage_dirty k pool (the (p_vnode pp)) (p_offset pp) isfs zid)
                  else
                    (CKP_FREED, unload @ checkpage_free isfs isexec zid, pool))))"
  by (subst checkpage_recheck.simps) (auto simp: Let_def checkpage_recheck_again after_calls_Nil)

lemmas recheck_unfold =
  checkpage_recheck_once checkpage_isref_def checkpage_dirty_def
  checkpage_free_def after_calls_def queue_io_request_def Let_def

lemma recheck_released:
  "lock_released (checkpage_recheck k h pool whichhand isfs isexec zid ppattr szc)"
  by (auto simp: lock_released_def recheck_unfold split: list.splits)

lemma released_balanced:
  assumes "lock_released r"
  shows "lock_balanced (after_calls [PAGE_TRYLOCK True, HAT_PAGESYNC f] r)"
  using assms by (cases r) (auto simp: lock_released_def lock_balanced_def after_calls_def)

subsection \<open>The page lock\<close>

text \<open>
  Claim C10. Whatever the page, the hand and the answers of the rest of the
  kernel, a run of \<^verbatim>\<open>checkpage\<close> leaves the page's exclusive lock as it found
  it: it never returns holding the lock, and after a successful
  \<^verbatim>\<open>page_trylock\<close> it has either called \<^verbatim>\<open>page_unlock\<close> exactly once and
  not disposed of the page, or disposed of the page once (on the path that
  returns \<^verbatim>\<open>CKP_FREED\<close>) and not called \<^verbatim>\<open>page_unlock\<close>.
\<close>

theorem checkpage_lock_balanced:
  "lock_balanced (checkpage k s h pool pp0 whichhand)"
proof -
  have a: "lock_balanced (CKP_INELIGIBLE, [], pool)"
    "lock_balanced (CKP_INELIGIBLE, [PAGE_TRYLOCK False], pool)"
    "lock_balanced (CKP_INELIGIBLE, [PAGE_TRYLOCK True, PAGE_UNLOCK], pool)"
    by (simp_all add: lock_balanced_def)
  show ?thesis
    by (simp add: checkpage_def Let_def a released_balanced recheck_released)
qed

text \<open>The theorem for the back hand on a dirty page when the pool is full.\<close>

theorem checkpage_lock_balanced_witness:
  "lock_balanced
     (checkpage kernel_1g running_vars quiet_host saturated_pool small_dirty_page POH_BACK)"
  by (rule checkpage_lock_balanced)

subsection \<open>The handoff of a dirty page\<close>

lemma recheck_handoff:
  "handoff_outcome k pool h (checkpage_recheck k h pool whichhand isfs isexec zid ppattr szc)"
  by (auto simp: handoff_outcome_def recheck_unfold split: list.splits)

lemma handoff_after_sync:
  assumes "handoff_outcome k pool h r"
  shows "handoff_outcome k pool h (after_calls [PAGE_TRYLOCK True, HAT_PAGESYNC f] r)"
  using assms
  by (cases r) (auto simp: handoff_outcome_def after_calls_def split: list.splits option.splits)

lemma checkpage_handoff:
  "handoff_outcome k pool h (checkpage k s h pool pp0 whichhand)"
proof -
  have a: "handoff_outcome k pool h (CKP_INELIGIBLE, [], pool)"
    "handoff_outcome k pool h (CKP_INELIGIBLE, [PAGE_TRYLOCK False], pool)"
    "handoff_outcome k pool h (CKP_INELIGIBLE, [PAGE_TRYLOCK True, PAGE_UNLOCK], pool)"
    by (simp_all add: handoff_outcome_def)
  show ?thesis
    by (simp add: checkpage_def Let_def a handoff_after_sync recheck_handoff)
qed

lemma queue_results_after_sync:
  "queue_results (fst (snd (after_calls [PAGE_TRYLOCK True, HAT_PAGESYNC f] r))) =
     queue_results (fst (snd r))"
  by (cases r) (simp add: after_calls_def)

lemma recheck_queues:
  "queue_results (fst (snd (checkpage_recheck k h pool whichhand isfs isexec zid ppattr szc))) \<noteq> []
     \<longleftrightarrow>
   p_vnode (page_locked h) \<noteq> None \<and> P_REF \<notin> ppattr \<and>
   (szc = 0 \<or> page_try_demote_pages_ret h) \<and>
   (P_MOD \<in> (if szc \<noteq> 0 then hat_page_getattr_demoted h else ppattr) \<or>
    (P_REF \<notin> hat_page_getattr_unloaded h \<and> P_MOD \<in> hat_page_getattr_unloaded h))"
  by (auto simp: recheck_unfold split: list.splits)

lemma checkpage_queues:
  "queue_results (fst (snd (checkpage k s h pool pp0 whichhand))) \<noteq> [] \<longleftrightarrow>
     checkpage_hands_off s h pp0 whichhand"
proof (cases "checkpage_eligible s h pp0")
  case True
  then have "checkpage k s h pool pp0 whichhand =
      (let pp = page_locked h;
           zid = (if zones_over s then p_zoneid pp else ALL_ZONES);
           isexec = (case p_vnode pp of None \<Rightarrow> False | Some vp \<Rightarrow> v_vvmexec vp);
           isfs = (case p_vnode pp of None \<Rightarrow> False | Some vp \<Rightarrow> \<not> v_swapfsvp vp);
           pagesync_flag =
             (if whichhand = POH_FRONT then [HAT_SYNC_ZERORM]
              else [HAT_SYNC_DONTZERO, HAT_SYNC_STOPON_REF, HAT_SYNC_STOPON_SHARED]);
           ppattr = hat_pagesync_ret h pagesync_flag
       in after_calls [PAGE_TRYLOCK True, HAT_PAGESYNC pagesync_flag]
            (checkpage_recheck k h pool whichhand isfs isexec zid ppattr (p_szc pp)))"
    by (auto simp: checkpage_def checkpage_eligible_def Let_def)
  then show ?thesis
    using True
    by (simp add: Let_def queue_results_after_sync recheck_queues checkpage_hands_off_def)
next
  case False
  then have "queue_results (fst (snd (checkpage k s h pool pp0 whichhand))) = []"
    by (auto simp: checkpage_def checkpage_eligible_def Let_def)
  then show ?thesis
    using False by (simp add: checkpage_hands_off_def)
qed

lemma saturated_pool_freelist: "req_freelist saturated_pool = []"
proof -
  have "length (req_freelist saturated_pool) = 0"
    by (simp add: saturated_pool_def queue_all_freelist pageout_pool_init_def)
  then show ?thesis
    by simp
qed

lemma scenario_S5:
  "fst (checkpage kernel_1g running_vars quiet_host saturated_pool small_dirty_page POH_BACK)
     = CKP_NOT_FREED \<and>
   fst (snd (checkpage kernel_1g running_vars quiet_host saturated_pool small_dirty_page POH_BACK))
     = [PAGE_TRYLOCK True,
        HAT_PAGESYNC [HAT_SYNC_DONTZERO, HAT_SYNC_STOPON_REF, HAT_SYNC_STOPON_SHARED],
        VN_HOLD some_vnode, PAGE_UNLOCK, QUEUE_IO 8192 0, VN_RELE some_vnode]"
proof -
  have s: "po_share running_vars = 8" "zones_over running_vars = False"
    by code_simp+
  show ?thesis
    by (simp add: checkpage_def checkpage_recheck_once checkpage_dirty_def
          queue_io_request_def after_calls_def Let_def saturated_pool_freelist s
          quiet_host_def racing_host_def small_dirty_page_def large_dirty_page_def)
qed

lemma scenario_S5_reached:
  "checkpage_hands_off running_vars quiet_host small_dirty_page POH_BACK"
proof -
  have s: "po_share running_vars = 8" "zones_over running_vars = False"
    by code_simp+
  show ?thesis
    by (simp add: checkpage_hands_off_def checkpage_eligible_def Let_def s
          quiet_host_def racing_host_def small_dirty_page_def large_dirty_page_def)
qed

text \<open>
  Claim C8. \<^verbatim>\<open>queue_io_request\<close> returns 0 when the freelist is empty, and
  then leaves the pool as it is; otherwise it returns 1. A run of
  \<^verbatim>\<open>checkpage\<close> calls \<^verbatim>\<open>queue_io_request\<close> exactly when it comes to the
  handoff of a dirty page, and then once, on the pool it started with and for
  the vnode and offset of the page: if that pool has no structure free the call
  returns 0, the run releases the vnode hold it took, returns
  \<^verbatim>\<open>CKP_NOT_FREED\<close> and leaves the pool unchanged; if it has one the call
  returns 1, the run returns \<^verbatim>\<open>CKP_FREED\<close>, keeps the hold and leaves the
  pool \<^verbatim>\<open>queue_io_request\<close> returned. After \<open>m\<close> requests on a fresh pool
  of 256 with nothing drained, \<open>256 - m\<close> structures are free: the next
  request returns 1 while \<open>m < 256\<close> and 0 when \<open>m = 256\<close>. With the pool
  full, the back hand on a dirty page of a file takes the hold, unlocks the
  page, gets 0, releases the hold and returns \<^verbatim>\<open>CKP_NOT_FREED\<close>.
\<close>

theorem queue_io_request_saturation:
  "(req_freelist pool = [] \<longrightarrow> queue_io_request k pool vp off = (0, pool)) \<and>
   (req_freelist pool \<noteq> [] \<longrightarrow> fst (queue_io_request k pool vp off) = 1) \<and>
   (queue_results (fst (snd (checkpage k s h pool pp0 whichhand))) \<noteq> [] \<longleftrightarrow>
      checkpage_hands_off s h pp0 whichhand) \<and>
   handoff_outcome k pool h (checkpage k s h pool pp0 whichhand) \<and>
   length (req_freelist (queue_all k (pageout_pool_init 256) reqs)) = 256 - length reqs \<and>
   (length reqs = 256 \<longrightarrow>
      queue_io_request k (queue_all k (pageout_pool_init 256) reqs) vp off =
        (0, queue_all k (pageout_pool_init 256) reqs)) \<and>
   (length reqs < 256 \<longrightarrow>
      fst (queue_io_request k (queue_all k (pageout_pool_init 256) reqs) vp off) = 1) \<and>
   checkpage_hands_off running_vars quiet_host small_dirty_page POH_BACK \<and>
   fst (checkpage kernel_1g running_vars quiet_host saturated_pool small_dirty_page POH_BACK)
     = CKP_NOT_FREED \<and>
   fst (snd (checkpage kernel_1g running_vars quiet_host saturated_pool small_dirty_page POH_BACK))
     = [PAGE_TRYLOCK True,
        HAT_PAGESYNC [HAT_SYNC_DONTZERO, HAT_SYNC_STOPON_REF, HAT_SYNC_STOPON_SHARED],
        VN_HOLD some_vnode, PAGE_UNLOCK, QUEUE_IO 8192 0, VN_RELE some_vnode]"
proof -
  let ?p = "queue_all k (pageout_pool_init 256) reqs"
  have len: "length (req_freelist ?p) = 256 - length reqs"
    by (simp add: queue_all_freelist pageout_pool_init_def)
  have full: "length reqs = 256 \<longrightarrow> queue_io_request k ?p vp off = (0, ?p)"
  proof
    assume "length reqs = 256"
    then have "req_freelist ?p = []"
      using len by simp
    then show "queue_io_request k ?p vp off = (0, ?p)"
      by (rule queue_io_request_empty)
  qed
  have room: "length reqs < 256 \<longrightarrow> fst (queue_io_request k ?p vp off) = 1"
  proof
    assume "length reqs < 256"
    then have "req_freelist ?p \<noteq> []"
      using len by auto
    then show "fst (queue_io_request k ?p vp off) = 1"
      by (rule queue_io_request_nonempty)
  qed
  have e: "req_freelist pool = [] \<longrightarrow> queue_io_request k pool vp off = (0, pool)"
    by (simp add: queue_io_request_empty)
  have n: "req_freelist pool \<noteq> [] \<longrightarrow> fst (queue_io_request k pool vp off) = 1"
    by (simp add: queue_io_request_nonempty)
  show ?thesis
    by (intro conjI e n checkpage_queues checkpage_handoff len full room scenario_S5_reached
          scenario_S5 [THEN conjunct1] scenario_S5 [THEN conjunct2])
qed

text \<open>
  The theorem for the 257th request, and for the two hands on a dirty page of a
  file: with the pool full the back hand returns \<^verbatim>\<open>CKP_NOT_FREED\<close> and leaves
  the pool as it was, with the pool fresh the front hand returns
  \<^verbatim>\<open>CKP_FREED\<close> and leaves 255 structures free.
\<close>

theorem queue_io_request_saturation_witness:
  "queue_io_request kernel_1g saturated_pool some_vnode 0 = (0, saturated_pool) \<and>
   handoff_outcome kernel_1g saturated_pool quiet_host
     (checkpage kernel_1g running_vars quiet_host saturated_pool small_dirty_page POH_BACK) \<and>
   handoff_outcome kernel_1g (pageout_pool_init 256) quiet_host
     (checkpage kernel_1g running_vars quiet_host (pageout_pool_init 256)
        small_dirty_page POH_FRONT) \<and>
   fst (checkpage kernel_1g running_vars quiet_host (pageout_pool_init 256)
          small_dirty_page POH_FRONT) = CKP_FREED \<and>
   length (req_freelist (snd (snd (checkpage kernel_1g running_vars quiet_host
     (pageout_pool_init 256) small_dirty_page POH_FRONT)))) = 255"
proof -
  note t = queue_io_request_saturation
    [where k = kernel_1g and reqs = "replicate 256 (some_vnode, 0)" and vp = some_vnode
       and off = 0, THEN conjunct2, THEN conjunct2, THEN conjunct2, THEN conjunct2,
     THEN conjunct2, THEN conjunct1]
  note u = queue_io_request_saturation
    [where k = kernel_1g and s = running_vars and h = quiet_host,
     THEN conjunct2, THEN conjunct2, THEN conjunct2, THEN conjunct1]
  have "length (replicate 256 (some_vnode, 0 :: 64 word)) = 256"
    by simp
  then have a: "queue_io_request kernel_1g saturated_pool some_vnode 0 = (0, saturated_pool)"
    unfolding saturated_pool_def by (rule t [THEN mp])
  have s: "po_share running_vars = 8" "zones_over running_vars = False"
    by code_simp+
  have f: "req_freelist (pageout_pool_init 256) = zeroed_req 0 # map zeroed_req [1..<256]"
    by (simp add: pageout_pool_init_def upt_conv_Cons)
  have b: "fst (checkpage kernel_1g running_vars quiet_host (pageout_pool_init 256)
          small_dirty_page POH_FRONT) = CKP_FREED"
    by (simp add: checkpage_def checkpage_recheck_once checkpage_dirty_def
          queue_io_request_def after_calls_def Let_def f s
          quiet_host_def racing_host_def small_dirty_page_def large_dirty_page_def)
  have c: "length (req_freelist (snd (snd (checkpage kernel_1g running_vars quiet_host
     (pageout_pool_init 256) small_dirty_page POH_FRONT)))) = 255"
    by (simp add: checkpage_def checkpage_recheck_once checkpage_dirty_def
          queue_io_request_def after_calls_def Let_def f s
          quiet_host_def racing_host_def small_dirty_page_def large_dirty_page_def)
  show ?thesis
    by (intro conjI a b c u)
qed

subsection \<open>A referenced page\<close>

text \<open>
  The first half of claim C3 holds: when the attributes that \<^verbatim>\<open>hat_pagesync\<close>
  returns include the reference bit, \<^verbatim>\<open>checkpage\<close> unlocks the page and returns
  \<^verbatim>\<open>CKP_NOT_FREED\<close>, and the front hand clears the reference bit first.
\<close>

lemma checkpage_referenced_after_sync:
  assumes "\<not> PP_ISKAS pp0" "\<not> PAGE_LOCKED pp0" "\<not> PP_ISFREE pp0"
    "p_lckcnt pp0 = 0" "p_cowcnt pp0 = 0" "\<not> hat_page_checkshare_ret h (po_share s)"
    and "page_trylock_ret h"
    and "\<not> PP_ISFREE (page_locked h)" "p_lckcnt (page_locked h) = 0"
    "p_cowcnt (page_locked h) = 0"
    and "zones_over s \<longrightarrow>
           p_zoneid (page_locked h) \<noteq> ALL_ZONES \<and> zpers_over h (p_zoneid (page_locked h)) \<noteq> 0"
    and "flag = (if whichhand = POH_FRONT then [HAT_SYNC_ZERORM]
                 else [HAT_SYNC_DONTZERO, HAT_SYNC_STOPON_REF, HAT_SYNC_STOPON_SHARED])"
    and "P_REF \<in> hat_pagesync_ret h flag"
  shows "checkpage k s h pool pp0 whichhand =
           (CKP_NOT_FREED,
            [PAGE_TRYLOCK True, HAT_PAGESYNC flag] @
            (if whichhand = POH_FRONT then [HAT_CLRREF] else []) @ [PAGE_UNLOCK],
            pool)"
  using assms
  by (auto simp: checkpage_def checkpage_recheck_once checkpage_isref_def after_calls_def Let_def)

text \<open>
  Claim C3, its second half, on the code: a large page is not referenced when
  the front hand syncs it, its demotion succeeds, and the attributes read after
  the demotion say referenced and modified. The code does not go back to the
  label \<^verbatim>\<open>recheck\<close>: it hands the page to the pool and returns \<^verbatim>\<open>CKP_FREED\<close>,
  and never clears the reference bit.
\<close>

theorem checkpage_demoted_referenced_page_queued:
  "P_REF \<in> hat_page_getattr_demoted racing_host \<and>
   fst (checkpage kernel_1g running_vars racing_host (pageout_pool_init 256)
          large_dirty_page POH_FRONT) = CKP_FREED \<and>
   fst (snd (checkpage kernel_1g running_vars racing_host (pageout_pool_init 256)
               large_dirty_page POH_FRONT)) =
     [PAGE_TRYLOCK True, HAT_PAGESYNC [HAT_SYNC_ZERORM],
      PAGE_TRY_DEMOTE_PAGES True, HAT_PAGE_GETATTR,
      VN_HOLD some_vnode, PAGE_UNLOCK, QUEUE_IO 8192 1,
      ZONE_PAGEOUT_STAT ALL_ZONES ZPO_DIRTY]"
proof -
  have s: "po_share running_vars = 8" "zones_over running_vars = False"
    by code_simp+
  have f: "req_freelist (pageout_pool_init 256) = zeroed_req 0 # map zeroed_req [1..<256]"
    by (simp add: pageout_pool_init_def upt_conv_Cons)
  show ?thesis
    by (simp add: checkpage_def checkpage_recheck_once checkpage_dirty_def
          queue_io_request_def after_calls_def Let_def f s
          racing_host_def large_dirty_page_def some_vnode_def ALL_ZONES_def)
qed

text \<open>So on this input the result is not \<^verbatim>\<open>CKP_NOT_FREED\<close>, and the reference bit stays.\<close>

theorem checkpage_demoted_referenced_page_queued_witness:
  "fst (checkpage kernel_1g running_vars racing_host (pageout_pool_init 256)
          large_dirty_page POH_FRONT) \<noteq> CKP_NOT_FREED \<and>
   HAT_CLRREF \<notin> set (fst (snd (checkpage kernel_1g running_vars racing_host
                                    (pageout_pool_init 256) large_dirty_page POH_FRONT)))"
  using checkpage_demoted_referenced_page_queued by simp

section \<open>Properties of \<^verbatim>\<open>pageout_deadman\<close>\<close>

lemma deadman_step:
  "pageout_deadman k pool d =
     (if panicstr k \<noteq> None \<or> pageout_deadman_seconds d = 0 then Inr d
      else if \<not> pageout_pushing pool \<or> pageout_pushcount pool \<noteq> pageout_pushcount_seen d
        then Inr (d\<lparr>pageout_stucktime := 0, pageout_pushcount_seen := pageout_pushcount pool\<rparr>)
      else if pageout_stucktime d + 1 \<ge> pageout_deadman_seconds d
        then Inl (PANIC_pageout_deadman (pageout_deadman_seconds d) (freemem k))
      else Inr (d\<lparr>pageout_stucktime := pageout_stucktime d + 1\<rparr>))"
  by (simp add: pageout_deadman_def deadman_reset_def Let_def)

lemma deadman_stuck_run:
  assumes "panicstr k = None" and "pageout_pushing pool"
    and "pageout_pushcount pool = pageout_pushcount_seen d"
    and "pageout_stucktime d = of_nat j"
    and "j + m < unat (pageout_deadman_seconds d)"
  shows "deadman_run k (replicate m pool) d = Inr (d\<lparr>pageout_stucktime := of_nat (j + m)\<rparr>)"
  using assms
proof (induction m arbitrary: d j)
  case 0
  then show ?case
    by simp
next
  case (Suc m)
  let ?n = "pageout_deadman_seconds d"
  let ?d' = "d\<lparr>pageout_stucktime := of_nat (Suc j)\<rparr>"
  have n0: "?n \<noteq> 0"
    using Suc.prems(5) by (auto simp: unat_eq_0)
  have lt: "Suc j < unat ?n"
    using Suc.prems(5) by simp
  have "unat ?n < 2 ^ LENGTH(32)"
    by (rule unsigned_less)
  then have "Suc j < 2 ^ LENGTH(32)"
    using lt by simp
  moreover have e: "pageout_stucktime d + 1 = of_nat (Suc j)"
    using Suc.prems(4) by simp
  ultimately have "unat (pageout_stucktime d + 1) = Suc j"
    by (intro of_nat_inverse) simp_all
  then have "\<not> ?n \<le> pageout_stucktime d + 1"
    using lt by (simp only: word_le_nat_alt not_le)
  then have "pageout_deadman k pool d = Inr (d\<lparr>pageout_stucktime := pageout_stucktime d + 1\<rparr>)"
    using Suc.prems(1,2,3) n0 by (simp only: deadman_step) simp
  then have step: "pageout_deadman k pool d = Inr ?d'"
    by (simp only: e)
  have "deadman_run k (replicate m pool) ?d' =
          Inr (?d'\<lparr>pageout_stucktime := of_nat (Suc j + m)\<rparr>)"
    using Suc.prems by (intro Suc.IH) simp_all
  then show ?case
    by (simp add: step)
qed

lemma deadman_trip:
  assumes "panicstr k = None" and "pageout_pushing pool"
    and "pageout_pushcount pool = pageout_pushcount_seen d"
    and "pageout_stucktime d = 0"
    and "pageout_deadman_seconds d \<noteq> 0"
  shows "deadman_run k (replicate (unat (pageout_deadman_seconds d)) pool) d =
           Inl (PANIC_pageout_deadman (pageout_deadman_seconds d) (freemem k))"
proof -
  let ?n = "pageout_deadman_seconds d"
  obtain m where m: "unat ?n = Suc m"
    using assms(5) by (cases "unat ?n") (auto simp: unat_eq_0)
  let ?d' = "d\<lparr>pageout_stucktime := of_nat m\<rparr>"
  have "deadman_run k (replicate m pool) d = Inr (d\<lparr>pageout_stucktime := of_nat (0 + m)\<rparr>)"
    using assms m by (intro deadman_stuck_run) simp_all
  then have r: "deadman_run k (replicate m pool) d = Inr ?d'"
    by simp
  have "(of_nat m + 1 :: 32 word) = of_nat (unat ?n)"
    by (simp add: m)
  then have "pageout_stucktime ?d' + 1 = ?n"
    by simp
  then have "pageout_deadman k pool ?d' = Inl (PANIC_pageout_deadman ?n (freemem k))"
    using assms by (simp add: deadman_step)
  moreover have "replicate (unat ?n) pool = replicate m pool @ [pool]"
    by (simp add: m replicate_append_same)
  moreover have "deadman_run k (ps @ [pool]) d0 =
      (case deadman_run k ps d0 of Inl p \<Rightarrow> Inl p | Inr d1 \<Rightarrow> pageout_deadman k pool d1)"
    for ps d0
    by (induction ps arbitrary: d0) (auto split: sum.splits)
  ultimately show ?thesis
    by (simp add: r)
qed

lemma deadman_progress:
  assumes "progressing (pageout_pushcount_seen d) pools"
  shows "\<exists>d'. deadman_run k pools d = Inr d'"
  using assms
proof (induction pools arbitrary: d)
  case Nil
  then show ?case
    by simp
next
  case (Cons pool pools)
  show ?case
  proof (cases "panicstr k \<noteq> None \<or> pageout_deadman_seconds d = 0")
    case True
    then have "pageout_deadman k pool d = Inr d"
      by (simp add: deadman_step)
    moreover have "\<exists>d'. deadman_run k pools d = Inr d'"
      using True
    proof (induction pools)
      case Nil
      then show ?case by simp
    next
      case (Cons p ps)
      then show ?case
        by (simp add: deadman_step)
    qed
    ultimately show ?thesis
      by simp
  next
    case False
    let ?d' = "d\<lparr>pageout_stucktime := 0, pageout_pushcount_seen := pageout_pushcount pool\<rparr>"
    have "pageout_deadman k pool d = Inr ?d'"
      using False Cons.prems by (auto simp: deadman_step)
    moreover have "\<exists>d'. deadman_run k pools ?d' = Inr d'"
      using Cons.prems by (intro Cons.IH) simp
    ultimately show ?thesis
      by simp
  qed
qed

text \<open>
  Claim C9. One run of the deadman panics exactly when the system is not
  panicking, \<^verbatim>\<open>pageout_deadman_seconds\<close> is nonzero, a push is in flight,
  the push count is the one seen before and the incremented stuck time reaches
  \<^verbatim>\<open>pageout_deadman_seconds\<close>. If the system is panicking or the deadman is
  off, the run changes nothing. Otherwise, if no push is in flight or the push
  count has changed, it sets the stuck time to zero and takes the push count as
  seen. From a stuck time of zero, with a push in flight and the push count
  standing still, the runs before the \<^verbatim>\<open>pageout_deadman_seconds\<close>-th return
  and that one panics. A sequence of runs each of which finds no push in flight
  or a new push count never panics.
\<close>

theorem pageout_deadman_trips:
  "(isl (pageout_deadman k pool d) \<longleftrightarrow>
      panicstr k = None \<and> pageout_deadman_seconds d \<noteq> 0 \<and> pageout_pushing pool \<and>
      pageout_pushcount pool = pageout_pushcount_seen d \<and>
      pageout_deadman_seconds d \<le> pageout_stucktime d + 1) \<and>
   (panicstr k \<noteq> None \<or> pageout_deadman_seconds d = 0 \<longrightarrow>
      pageout_deadman k pool d = Inr d) \<and>
   (panicstr k = None \<and> pageout_deadman_seconds d \<noteq> 0 \<and>
    (\<not> pageout_pushing pool \<or> pageout_pushcount pool \<noteq> pageout_pushcount_seen d) \<longrightarrow>
      pageout_deadman k pool d =
        Inr (d\<lparr>pageout_stucktime := 0, pageout_pushcount_seen := pageout_pushcount pool\<rparr>)) \<and>
   (panicstr k = None \<and> pageout_deadman_seconds d \<noteq> 0 \<and> pageout_pushing pool \<and>
    pageout_pushcount pool = pageout_pushcount_seen d \<and> pageout_stucktime d = 0 \<longrightarrow>
      (\<forall>m < unat (pageout_deadman_seconds d).
         deadman_run k (replicate m pool) d = Inr (d\<lparr>pageout_stucktime := of_nat m\<rparr>)) \<and>
      deadman_run k (replicate (unat (pageout_deadman_seconds d)) pool) d =
        Inl (PANIC_pageout_deadman (pageout_deadman_seconds d) (freemem k))) \<and>
   (progressing (pageout_pushcount_seen d) pools \<longrightarrow>
      (\<exists>d'. deadman_run k pools d = Inr d'))"
proof -
  have a: "isl (pageout_deadman k pool d) \<longleftrightarrow>
      panicstr k = None \<and> pageout_deadman_seconds d \<noteq> 0 \<and> pageout_pushing pool \<and>
      pageout_pushcount pool = pageout_pushcount_seen d \<and>
      pageout_deadman_seconds d \<le> pageout_stucktime d + 1"
    by (auto simp: deadman_step)
  have b: "panicstr k \<noteq> None \<or> pageout_deadman_seconds d = 0 \<longrightarrow>
      pageout_deadman k pool d = Inr d"
    by (simp add: deadman_step)
  have c: "panicstr k = None \<and> pageout_deadman_seconds d \<noteq> 0 \<and>
    (\<not> pageout_pushing pool \<or> pageout_pushcount pool \<noteq> pageout_pushcount_seen d) \<longrightarrow>
      pageout_deadman k pool d =
        Inr (d\<lparr>pageout_stucktime := 0, pageout_pushcount_seen := pageout_pushcount pool\<rparr>)"
    by (auto simp: deadman_step)
  have e: "panicstr k = None \<and> pageout_deadman_seconds d \<noteq> 0 \<and> pageout_pushing pool \<and>
    pageout_pushcount pool = pageout_pushcount_seen d \<and> pageout_stucktime d = 0 \<longrightarrow>
      (\<forall>m < unat (pageout_deadman_seconds d).
         deadman_run k (replicate m pool) d = Inr (d\<lparr>pageout_stucktime := of_nat m\<rparr>)) \<and>
      deadman_run k (replicate (unat (pageout_deadman_seconds d)) pool) d =
        Inl (PANIC_pageout_deadman (pageout_deadman_seconds d) (freemem k))"
  proof (intro impI conjI allI)
    assume h: "panicstr k = None \<and> pageout_deadman_seconds d \<noteq> 0 \<and> pageout_pushing pool \<and>
      pageout_pushcount pool = pageout_pushcount_seen d \<and> pageout_stucktime d = 0"
    show "deadman_run k (replicate (unat (pageout_deadman_seconds d)) pool) d =
        Inl (PANIC_pageout_deadman (pageout_deadman_seconds d) (freemem k))"
      using h by (intro deadman_trip) simp_all
    fix m
    assume "m < unat (pageout_deadman_seconds d)"
    then have "deadman_run k (replicate m pool) d =
                 Inr (d\<lparr>pageout_stucktime := of_nat (0 + m)\<rparr>)"
      using h by (intro deadman_stuck_run) simp_all
    then show "deadman_run k (replicate m pool) d = Inr (d\<lparr>pageout_stucktime := of_nat m\<rparr>)"
      by simp
  qed
  have f: "progressing (pageout_pushcount_seen d) pools \<longrightarrow>
      (\<exists>d'. deadman_run k pools d = Inr d')"
    using deadman_progress by blast
  show ?thesis
    by (intro conjI a b c e f)
qed

text \<open>
  The specification's scenario: three seconds, a push in flight and the push
  count standing still. The third run panics.
\<close>

theorem pageout_deadman_trips_witness:
  "deadman_run kernel_1g (replicate 3 stuck_pool) deadman_3s =
     Inl (PANIC_pageout_deadman 3 100000)"
proof -
  have h: "panicstr kernel_1g = None \<and> pageout_deadman_seconds deadman_3s \<noteq> 0 \<and>
      pageout_pushing stuck_pool \<and>
      pageout_pushcount stuck_pool = pageout_pushcount_seen deadman_3s \<and>
      pageout_stucktime deadman_3s = 0"
    by code_simp
  have "deadman_run kernel_1g
          (replicate (unat (pageout_deadman_seconds deadman_3s)) stuck_pool) deadman_3s =
        Inl (PANIC_pageout_deadman (pageout_deadman_seconds deadman_3s) (freemem kernel_1g))"
    using pageout_deadman_trips
      [where k = kernel_1g and pool = stuck_pool and d = deadman_3s,
       THEN conjunct2, THEN conjunct2, THEN conjunct2, THEN conjunct1, THEN mp, OF h]
    by (rule conjunct2)
  then show ?thesis
    by (simp add: deadman_3s_def kernel_1g_def)
qed

end
